theory Spec2Isabelle
  imports Main "HOL-Library.Sublist"
begin

section \<open>The note index of zk: the SQLite data access object for notes\<close>

text \<open>
  The development embeds \<^verbatim>\<open>NoteDAO\<close> (package \<^verbatim>\<open>sqlite\<close>): the index writer
  (\<^verbatim>\<open>Add\<close>, \<^verbatim>\<open>Update\<close>, \<^verbatim>\<open>addLinks\<close>), the id lookups, the mention expander
  (\<^verbatim>\<open>expandMentionsIntoMatch\<close>) and the filter compiler (\<^verbatim>\<open>findRows\<close>).
  The DAO talks to SQLite through SQL statements that are part of its source text. The tables
  are lists of rows (in rowid order), each prepared statement is a function on the tables that
  does what the statement's SQL text says, and the \<^verbatim>\<open>SELECT\<close> that \<^verbatim>\<open>findRows\<close>
  assembles from string fragments is a record with one constructor per fragment, run by
  \<^verbatim>\<open>tx_Query\<close>.
\<close>

subsection \<open>Errors\<close>

text \<open>
  The Go code returns plain \<^verbatim>\<open>error\<close> values made with \<^verbatim>\<open>errors.New\<close> and
  \<^verbatim>\<open>fmt.Errorf\<close>; each constructor stands for one message of the source:
  \<^item> \<open>NotFound\<close>: "note not found in the index";
  \<^item> \<open>MentionNotFound paths\<close>: "could not find notes at: " followed by the mention paths;
  \<^item> \<open>InvalidQuery group\<close>: "cannot negate a tag in a OR group: " followed by the group;
  \<^item> \<open>PanicUnknownSortField\<close>: the panic of \<^verbatim>\<open>orderTerm\<close>;
  \<^item> \<open>DuplicatePath\<close>, \<open>SqlError\<close>, \<open>DbFailure\<close>: errors that come back from the
    database (a violated constraint, a statement the engine rejects, a failing connection).
\<close>

datatype error =
    NotFound
  | MentionNotFound "string list"
  | InvalidQuery string
  | PanicUnknownSortField
  | DuplicatePath string
  | SqlError string
  | DbFailure

subsection \<open>Strings\<close>

text \<open>\<^verbatim>\<open>strings.Join(elems, sep)\<close>.\<close>

fun strings_Join :: "string list \<Rightarrow> string \<Rightarrow> string" where
  "strings_Join [] sep = []"
| "strings_Join [x] sep = x"
| "strings_Join (x # y # ys) sep = x @ sep @ strings_Join (y # ys) sep"

text \<open>\<^verbatim>\<open>strings.ReplaceAll(s, old, new)\<close> for a one-character \<^verbatim>\<open>old\<close>.\<close>

definition strings_ReplaceAll :: "string \<Rightarrow> char \<Rightarrow> string \<Rightarrow> string" where
  "strings_ReplaceAll s old new = concat (map (\<lambda>c. if c = old then new else [c]) s)"

text \<open>
  \<^verbatim>\<open>strings.TrimSpace\<close>, for the ASCII white space characters (tab, line feed, vertical
  tab, form feed, carriage return, space).
\<close>

definition isSpace :: "char \<Rightarrow> bool" where
  "isSpace c = (c \<in> {CHR 0x09, CHR 0x0A, CHR 0x0B, CHR 0x0C, CHR 0x0D, CHR '' ''})"

definition strings_TrimSpace :: "string \<Rightarrow> string" where
  "strings_TrimSpace s = rev (dropWhile isSpace (rev (dropWhile isSpace s)))"

definition strings_HasPrefix :: "string \<Rightarrow> string \<Rightarrow> bool" where
  "strings_HasPrefix s p = (take (length p) s = p)"

definition strings_TrimPrefix :: "string \<Rightarrow> string \<Rightarrow> string" where
  "strings_TrimPrefix s p = (if strings_HasPrefix s p then drop (length p) s else s)"

text \<open>
  SQLite's \<^verbatim>\<open>text LIKE pattern\<close> with no \<^verbatim>\<open>ESCAPE\<close>: \<^verbatim>\<open>%\<close> in the pattern matches
  any run of characters, \<^verbatim>\<open>_\<close> any one character, and every other character matches itself
  up to the case of the ASCII letters.
\<close>

definition ascii_lower :: "char \<Rightarrow> char" where
  "ascii_lower c =
     (let n = (of_char c :: nat) in if 65 \<le> n \<and> n \<le> 90 then char_of (n + 32) else c)"

fun sql_like :: "string \<Rightarrow> string \<Rightarrow> bool" where
  "sql_like [] [] = True"
| "sql_like [] (c # cs) = False"
| "sql_like (p # ps) [] = (p = CHR ''%'' \<and> sql_like ps [])"
| "sql_like (p # ps) (c # cs) =
     (if p = CHR ''%'' then sql_like ps (c # cs) \<or> sql_like (p # ps) cs
      else (p = CHR ''_'' \<or> ascii_lower p = ascii_lower c) \<and> sql_like ps cs)"

subsection \<open>Notes and links as the DAO receives them\<close>

type_synonym NoteId = int

text \<open>
  Modelled from the spec: \<^verbatim>\<open>core.NoteId.IsValid\<close> is declared outside the files at hand.
  The lookups return \<^verbatim>\<open>core.NoteId(0)\<close> for the spec's "invalid (none) id", and the ids
  SQLite assigns to inserted rows are positive, so an id is valid when it is positive.
\<close>

definition IsValid :: "NoteId \<Rightarrow> bool" where
  "IsValid i = (0 < i)"

text \<open>
  A decoded JSON value of the metadata map. \<open>JOther s\<close> is a number, boolean, null or object,
  kept as the text \<^verbatim>\<open>fmt.Sprint\<close> prints for it.
\<close>

datatype jvalue = JString string | JArray "jvalue list" | JOther string

fun fmt_Sprint :: "jvalue \<Rightarrow> string" where
  "fmt_Sprint (JString s) = s"
| "fmt_Sprint (JOther s) = s"
| "fmt_Sprint (JArray vs) = ''['' @ strings_Join (map fmt_Sprint vs) '' '' @ '']''"

text \<open>\<^verbatim>\<open>note.Link\<close> and \<^verbatim>\<open>note.Metadata\<close>, with the fields the DAO reads.\<close>

record Link =
  LinkTitle :: string
  Href :: string
  External :: bool
  Rels :: "string list"
  Snippet :: string
  SnippetStart :: int
  SnippetEnd :: int

record Metadata =
  Path :: string
  Title :: string
  Lead :: string
  Body :: string
  RawContent :: string
  WordCount :: int
  Links :: "Link list"
  MetadataMap :: "(string \<times> jvalue) list"
  Created :: int
  Modified :: int
  Checksum :: string

subsection \<open>The database\<close>

text \<open>
  The tables the statements of the DAO read and write. The \<^verbatim>\<open>metadata\<close> column holds JSON
  text; the model keeps what \<^verbatim>\<open>json.Unmarshal\<close> makes of it, \<open>None\<close> when it does not
  parse. Tags live in \<^verbatim>\<open>collections\<close> and \<^verbatim>\<open>notes_collections\<close>. When \<open>db_failing\<close> is set
  the connection is broken and every statement returns an error.
\<close>

record note_row =
  n_id :: NoteId
  n_path :: string
  n_sortable_path :: string
  n_title :: string
  n_lead :: string
  n_body :: string
  n_raw_content :: string
  n_word_count :: int
  n_metadata :: "(string \<times> jvalue) list option"
  n_checksum :: string
  n_created :: int
  n_modified :: int

record link_row =
  l_source_id :: NoteId
  l_target_id :: "NoteId option"
  l_title :: string
  l_href :: string
  l_external :: bool
  l_rels :: string
  l_snippet :: string
  l_snippet_start :: int
  l_snippet_end :: int

record collection_row =
  c_id :: int
  c_kind :: string
  c_name :: string

record database =
  db_notes :: "note_row list"
  db_links :: "link_row list"
  db_collections :: "collection_row list"
  db_notes_collections :: "(NoteId \<times> int) list"
  db_failing :: bool

subsection \<open>Id lookups\<close>

text \<open>
  What \<^verbatim>\<open>row.Scan(&id)\<close> meets on the \<^verbatim>\<open>*sql.Row\<close> of a one-column query: no row
  (\<^verbatim>\<open>sql.ErrNoRows\<close>), another scan error, or a value of type \<^verbatim>\<open>sql.NullInt64\<close>.
\<close>

datatype sql_row = ErrNoRows | ScanError error | Scanned "int option"

fun idForRow :: "sql_row \<Rightarrow> error + NoteId" where
  "idForRow ErrNoRows = Inr 0"
| "idForRow (ScanError e) = Inl e"
| "idForRow (Scanned v) = Inr (case v of None \<Rightarrow> 0 | Some i \<Rightarrow> i)"

text \<open>
  \<^verbatim>\<open>QueryRow\<close> on a \<^verbatim>\<open>SELECT id FROM notes WHERE ...\<close>: the first row of the table that
  satisfies the condition.
\<close>

definition select_id_QueryRow :: "database \<Rightarrow> (note_row \<Rightarrow> bool) \<Rightarrow> error + sql_row" where
  "select_id_QueryRow db cond =
     (if db_failing db then Inl DbFailure
      else Inr (case filter cond (db_notes db) of
                  [] \<Rightarrow> ErrNoRows
                | n # _ \<Rightarrow> Scanned (Some (n_id n))))"

text \<open>\<^verbatim>\<open>findIdByPathStmt\<close>: \<^verbatim>\<open>SELECT id FROM notes WHERE path = ?\<close>.\<close>

definition findIdByPath :: "database \<Rightarrow> string \<Rightarrow> error + NoteId" where
  "findIdByPath db path =
     (case select_id_QueryRow db (\<lambda>n. n_path n = path) of
        Inl err \<Rightarrow> Inl err
      | Inr row \<Rightarrow> idForRow row)"

text \<open>\<^verbatim>\<open>findIdByPathPrefixStmt\<close>: \<^verbatim>\<open>SELECT id FROM notes WHERE path LIKE ? || '%'\<close>.\<close>

definition findIdByPathPrefix :: "database \<Rightarrow> string \<Rightarrow> error + NoteId" where
  "findIdByPathPrefix db path =
     (case select_id_QueryRow db (\<lambda>n. sql_like (path @ ''%'') (n_path n)) of
        Inl err \<Rightarrow> Inl err
      | Inr row \<Rightarrow> idForRow row)"

text \<open>The loop of \<^verbatim>\<open>findIdsByPathPrefixes\<close>: the valid ids, in the order of the paths.\<close>

fun findIdsByPathPrefixes :: "database \<Rightarrow> string list \<Rightarrow> error + NoteId list" where
  "findIdsByPathPrefixes db [] = Inr []"
| "findIdsByPathPrefixes db (path # paths) =
     (case findIdByPathPrefix db path of
        Inl err \<Rightarrow> Inl err
      | Inr i \<Rightarrow>
          (case findIdsByPathPrefixes db paths of
             Inl err \<Rightarrow> Inl err
           | Inr ids \<Rightarrow> Inr (if IsValid i then i # ids else ids)))"

definition idToSql :: "NoteId \<Rightarrow> int option" where
  "idToSql i = (if IsValid i then Some i else None)"

subsection \<open>The index writer\<close>

text \<open>
  \<^verbatim>\<open>addStmt\<close>: \<^verbatim>\<open>INSERT INTO notes (path, sortable_path, title, ...) VALUES (...)\<close>, then
  \<^verbatim>\<open>LastInsertId\<close>. SQLite gives the new row an id one above the largest id of the table.
  Modelled from the spec: the schema of the table is outside the files at hand; the spec's
  "path unique" invariant makes the insertion of a path that is already stored fail.
\<close>

definition LastInsertId :: "database \<Rightarrow> NoteId" where
  "LastInsertId db = fold max (map n_id (db_notes db)) 0 + 1"

definition addStmt_Exec :: "database \<Rightarrow> Metadata \<Rightarrow> error + (NoteId \<times> database)" where
  "addStmt_Exec db m =
     (if db_failing db then Inl DbFailure
      else if Path m \<in> set (map n_path (db_notes db)) then Inl (DuplicatePath (Path m))
      else
        Inr (LastInsertId db,
             db\<lparr>db_notes := db_notes db @
               [\<lparr>n_id = LastInsertId db, n_path = Path m,
                 n_sortable_path = strings_ReplaceAll (Path m) CHR ''/'' [CHR 0x01],
                 n_title = Title m, n_lead = Lead m, n_body = Body m,
                 n_raw_content = RawContent m, n_word_count = WordCount m,
                 n_metadata = Some (MetadataMap m), n_checksum = Checksum m,
                 n_created = Created m, n_modified = Modified m\<rparr>]\<rparr>))"

text \<open>
  \<^verbatim>\<open>updateStmt\<close>: \<^verbatim>\<open>UPDATE notes SET title = ?, lead = ?, body = ?, raw_content = ?,
  word_count = ?, metadata = ?, checksum = ?, modified = ? WHERE path = ?\<close>.
\<close>

definition updateStmt_Exec :: "database \<Rightarrow> Metadata \<Rightarrow> error + database" where
  "updateStmt_Exec db m =
     (if db_failing db then Inl DbFailure
      else
        Inr (db\<lparr>db_notes :=
          map (\<lambda>n. if n_path n = Path m
                    then n\<lparr>n_title := Title m, n_lead := Lead m, n_body := Body m,
                           n_raw_content := RawContent m, n_word_count := WordCount m,
                           n_metadata := Some (MetadataMap m), n_checksum := Checksum m,
                           n_modified := Modified m\<rparr>
                    else n) (db_notes db)\<rparr>))"

text \<open>\<^verbatim>\<open>joinLinkRels\<close>.\<close>

definition joinLinkRels :: "string list \<Rightarrow> string" where
  "joinLinkRels rels =
     (if length rels = 0 then []
      else [CHR 0x01] @ strings_Join rels [CHR 0x01] @ [CHR 0x01])"

text \<open>\<^verbatim>\<open>addLinkStmt\<close>: \<^verbatim>\<open>INSERT INTO links (source_id, target_id, title, href, ...)\<close>.\<close>

definition addLinkStmt_Exec :: "database \<Rightarrow> link_row \<Rightarrow> error + database" where
  "addLinkStmt_Exec db l =
     (if db_failing db then Inl DbFailure else Inr (db\<lparr>db_links := db_links db @ [l]\<rparr>))"

text \<open>
  \<^verbatim>\<open>setLinksTargetStmt\<close>: \<^verbatim>\<open>UPDATE links SET target_id = ? WHERE target_id IS NULL AND
  external = 0 AND ? LIKE href || '%'\<close>. The stored href is the pattern of the \<^verbatim>\<open>LIKE\<close>.
\<close>

definition setLinksTargetStmt_Exec :: "database \<Rightarrow> NoteId \<Rightarrow> string \<Rightarrow> error + database" where
  "setLinksTargetStmt_Exec db i path =
     (if db_failing db then Inl DbFailure
      else
        Inr (db\<lparr>db_links :=
          map (\<lambda>l. if l_target_id l = None \<and> \<not> l_external l \<and> sql_like (l_href l @ ''%'') path
                    then l\<lparr>l_target_id := Some i\<rparr>
                    else l) (db_links db)\<rparr>))"

text \<open>\<^verbatim>\<open>removeLinksStmt\<close>: \<^verbatim>\<open>DELETE FROM links WHERE source_id = ?\<close>.\<close>

definition removeLinksStmt_Exec :: "database \<Rightarrow> int option \<Rightarrow> error + database" where
  "removeLinksStmt_Exec db i =
     (if db_failing db then Inl DbFailure
      else Inr (db\<lparr>db_links := filter (\<lambda>l. Some (l_source_id l) \<noteq> i) (db_links db)\<rparr>))"

text \<open>
  \<^verbatim>\<open>addLinks\<close>: the loop over \<^verbatim>\<open>note.Links\<close>, then the statement that gives a target to
  the links that waited for this note.
\<close>

definition link_row_of :: "NoteId \<Rightarrow> NoteId \<Rightarrow> Link \<Rightarrow> link_row" where
  "link_row_of i targetId link =
     \<lparr>l_source_id = i, l_target_id = idToSql targetId, l_title = LinkTitle link,
      l_href = Href link, l_external = External link, l_rels = joinLinkRels (Rels link),
      l_snippet = Snippet link, l_snippet_start = SnippetStart link,
      l_snippet_end = SnippetEnd link\<rparr>"

fun addLinks_loop :: "database \<Rightarrow> NoteId \<Rightarrow> Link list \<Rightarrow> error + database" where
  "addLinks_loop db i [] = Inr db"
| "addLinks_loop db i (link # rest) =
     (case findIdByPathPrefix db (Href link) of
        Inl err \<Rightarrow> Inl err
      | Inr targetId \<Rightarrow>
          (case addLinkStmt_Exec db (link_row_of i targetId link) of
             Inl err \<Rightarrow> Inl err
           | Inr db' \<Rightarrow> addLinks_loop db' i rest))"

definition addLinks :: "database \<Rightarrow> NoteId \<Rightarrow> Metadata \<Rightarrow> error + database" where
  "addLinks db i m =
     (case addLinks_loop db i (Links m) of
        Inl err \<Rightarrow> Inl err
      | Inr db' \<Rightarrow> setLinksTargetStmt_Exec db' i (Path m))"

text \<open>
  \<^verbatim>\<open>Add\<close> and \<^verbatim>\<open>Update\<close>. A call that returns an error returns no database: the caller's
  transaction is rolled back.
\<close>

definition Add :: "database \<Rightarrow> Metadata \<Rightarrow> error + (NoteId \<times> database)" where
  "Add db m =
     (case addStmt_Exec db m of
        Inl err \<Rightarrow> Inl err
      | Inr (i, db') \<Rightarrow>
          (case addLinks db' i m of
             Inl err \<Rightarrow> Inl err
           | Inr db'' \<Rightarrow> Inr (i, db'')))"

definition Update :: "database \<Rightarrow> Metadata \<Rightarrow> error + (NoteId \<times> database)" where
  "Update db m =
     (case findIdByPath db (Path m) of
        Inl err \<Rightarrow> Inl err
      | Inr i \<Rightarrow>
          if \<not> IsValid i then Inl NotFound
          else
            (case updateStmt_Exec db m of
               Inl err \<Rightarrow> Inl err
             | Inr db1 \<Rightarrow>
                 (case removeLinksStmt_Exec db1 (idToSql i) of
                    Inl err \<Rightarrow> Inl err
                  | Inr db2 \<Rightarrow>
                      (case addLinks db2 i m of
                         Inl err \<Rightarrow> Inl err
                       | Inr db3 \<Rightarrow> Inr (i, db3)))))"

subsection \<open>Finder options\<close>

text \<open>
  \<^verbatim>\<open>note.FinderOpts\<close>, \<^verbatim>\<open>note.LinkFilter\<close> and \<^verbatim>\<open>note.Sorter\<close>, with the fields that
  \<^verbatim>\<open>expandMentionsIntoMatch\<close> and \<^verbatim>\<open>findRows\<close> read. A slice or pointer that the code
  compares with \<^verbatim>\<open>nil\<close> is an option; \<^verbatim>\<open>opt.String\<close> is an option whose
  \<^verbatim>\<open>String()\<close> is the empty string when it is null. \<open>SortOther\<close> stands for a
  \<^verbatim>\<open>note.SortField\<close> outside the six named constants.
\<close>

datatype SortField =
  SortCreated | SortModified | SortPath | SortRandom | SortTitle | SortWordCount | SortOther

record Sorter =
  Field :: SortField
  Ascending :: bool

record LinkFilter =
  Paths :: "string list"
  Negate :: bool
  Recursive :: bool
  MaxDistance :: int

record FinderOpts =
  Match :: "string option"
  IncludePaths :: "string list option"
  ExcludePaths :: "string list option"
  ExcludeIds :: "NoteId list option"
  Tags :: "string list option"
  Mention :: "string list option"
  LinkedBy :: "LinkFilter option"
  LinkTo :: "LinkFilter option"
  Related :: "string list option"
  Orphan :: bool
  CreatedStart :: "int option"
  CreatedEnd :: "int option"
  ModifiedStart :: "int option"
  ModifiedEnd :: "int option"
  Sorters :: "Sorter list"
  Limit :: int

definition Match_String :: "FinderOpts \<Rightarrow> string" where
  "Match_String opts = (case Match opts of None \<Rightarrow> [] | Some s \<Rightarrow> s)"

subsection \<open>Mention expansion\<close>

text \<open>
  The closure \<^verbatim>\<open>appendTitle\<close> of \<^verbatim>\<open>expandMentionsIntoMatch\<close>: the title without its
  double quotes (\<open>CHR 0x22\<close>), between double quotes.
\<close>

definition appendTitle :: "string list \<Rightarrow> string \<Rightarrow> string list" where
  "appendTitle titles t = titles @ [[CHR 0x22] @ strings_ReplaceAll t (CHR 0x22) [] @ [CHR 0x22]]"

text \<open>
  The body of the loop over the rows of the titles query: the title, then the aliases when the
  metadata parses and holds an \<^verbatim>\<open>aliases\<close> key with a list or a string.
\<close>

definition row_titles :: "string list \<Rightarrow> note_row \<Rightarrow> string list" where
  "row_titles titles n =
     (let titles' = appendTitle titles (n_title n) in
      case n_metadata n of
        None \<Rightarrow> titles'
      | Some metadata \<Rightarrow>
          (case map_of metadata ''aliases'' of
             None \<Rightarrow> titles'
           | Some (JArray aliases) \<Rightarrow> foldl appendTitle titles' (map fmt_Sprint aliases)
           | Some (JString alias) \<Rightarrow> appendTitle titles' alias
           | Some (JOther v) \<Rightarrow> titles'))"

text \<open>\<^verbatim>\<open>SELECT title, metadata FROM notes WHERE id IN (ids)\<close>.\<close>

definition titlesQuery :: "database \<Rightarrow> NoteId list \<Rightarrow> error + note_row list" where
  "titlesQuery db ids =
     (if db_failing db then Inl DbFailure
      else Inr (filter (\<lambda>n. n_id n \<in> set ids) (db_notes db)))"

definition expandMentionsIntoMatch :: "database \<Rightarrow> FinderOpts \<Rightarrow> error + FinderOpts" where
  "expandMentionsIntoMatch db opts =
     (case Mention opts of
        None \<Rightarrow> Inr opts
      | Some mention \<Rightarrow>
          (case findIdsByPathPrefixes db mention of
             Inl err \<Rightarrow> Inl err
           | Inr ids \<Rightarrow>
               if length ids = 0 then Inl (MentionNotFound mention)
               else
                 (case titlesQuery db ids of
                    Inl err \<Rightarrow> Inl err
                  | Inr rows \<Rightarrow>
                      (let titles = foldl row_titles [] rows in
                       if length titles = 0 then Inl (MentionNotFound mention)
                       else
                         Inr (opts\<lparr>
                           ExcludeIds :=
                             Some (case ExcludeIds opts of None \<Rightarrow> ids | Some ex \<Rightarrow> ex @ ids),
                           Match :=
                             Some (Match_String opts @ '' ('' @ strings_Join titles '' OR '' @ '')'')
                           \<rparr>)))))"

subsection \<open>The query that findRows assembles\<close>

text \<open>
  The capabilities of the database engine and of the helper packages that the query relies on
  and that are no part of the DAO: the \<^verbatim>\<open>GLOB\<close> and \<^verbatim>\<open>REGEXP\<close> operators,
  \<^verbatim>\<open>icu.EscapePattern\<close>, \<^verbatim>\<open>fts5.ConvertQuery\<close>, the full-text index (which notes a
  \<^verbatim>\<open>MATCH\<close> expression selects, \<open>None\<close> for an expression that FTS5 rejects) and the
  evaluation of the \<^verbatim>\<open>ORDER BY\<close> terms into a rank for each row.
\<close>

record env =
  glob :: "string \<Rightarrow> string \<Rightarrow> bool"
  regexp :: "string \<Rightarrow> string \<Rightarrow> bool"
  icu_EscapePattern :: "string \<Rightarrow> string"
  fts5_ConvertQuery :: "string \<Rightarrow> string"
  fts_match :: "string \<Rightarrow> (note_row \<Rightarrow> bool) option"
  order_key :: "string list \<Rightarrow> note_row \<Rightarrow> int"

text \<open>
  The fragments of SQL text, one constructor for each string that \<^verbatim>\<open>findRows\<close> appends:
  \<^item> \<open>MatchExpr q\<close>: \<^verbatim>\<open>notes_fts MATCH ?\<close>, bound to \<open>q\<close>;
  \<^item> \<open>PathRegexes rs\<close>: \<^verbatim>\<open>n.path REGEXP ?\<close> joined by \<^verbatim>\<open>OR\<close>;
  \<^item> \<open>PathNotRegexes rs\<close>: \<^verbatim>\<open>n.path NOT REGEXP ?\<close> joined by \<^verbatim>\<open>AND\<close>;
  \<^item> \<open>IdNotIn ids\<close>: \<^verbatim>\<open>n.id NOT IN (ids)\<close>;
  \<^item> \<open>TagGlobs negate globs\<close>: \<^verbatim>\<open>n.id [NOT] IN (SELECT note_id FROM notes_collections
    WHERE collection_id IN (SELECT id FROM collections t WHERE kind = 'tag' AND
    (t.name GLOB ? OR ...)))\<close>;
  \<^item> \<open>LinkIds negate src direction ids\<close>: \<^verbatim>\<open>n.id [NOT] IN (SELECT target_id FROM src WHERE
    target_id IS NOT NULL AND source_id IN (ids) UNION SELECT source_id FROM src WHERE
    target_id IS NOT NULL AND target_id IN (ids))\<close>, the first select when
    \<open>direction \<le> 0\<close> and the second when \<open>direction \<ge> 0\<close>;
  \<^item> \<open>OrphanExpr\<close>: \<^verbatim>\<open>n.id NOT IN (SELECT target_id FROM links WHERE target_id IS NOT NULL)\<close>;
  \<^item> \<open>CreatedGE\<close>, \<open>CreatedLT\<close>, \<open>ModifiedGE\<close>, \<open>ModifiedLT\<close>: \<^verbatim>\<open>created >= ?\<close>,
    \<^verbatim>\<open>created < ?\<close>, \<^verbatim>\<open>modified >= ?\<close>, \<^verbatim>\<open>modified < ?\<close>;
  \<^item> \<open>JoinFts\<close>: \<^verbatim>\<open>JOIN notes_fts ON n.id = notes_fts.rowid\<close>;
  \<^item> \<open>LeftJoinLinks src direction ids\<close>: \<^verbatim>\<open>LEFT JOIN src l ON (n.id = l.target_id AND
    l.source_id IN (ids)) OR (n.id = l.source_id AND l.target_id IN (ids))\<close>, the first
    disjunct when \<open>direction \<le> 0\<close> and the second when \<open>direction \<ge> 0\<close>.
\<close>

datatype links_src = LinksTable | TransitiveClosure

datatype where_expr =
    MatchExpr string
  | PathRegexes "string list"
  | PathNotRegexes "string list"
  | IdNotIn "NoteId list"
  | TagGlobs bool "string list"
  | LinkIds bool links_src int "NoteId list"
  | OrphanExpr
  | CreatedGE int
  | CreatedLT int
  | ModifiedGE int
  | ModifiedLT int

datatype join_clause = JoinFts | LeftJoinLinks links_src int "NoteId list"

datatype snippet_col = SnippetLead | SnippetFts | SnippetLinks

text \<open>The local variables of \<^verbatim>\<open>findRows\<close> that its steps update.\<close>

record builder =
  snippetCol :: snippet_col
  joinClauses :: "join_clause list"
  whereExprs :: "where_expr list"
  additionalOrderTerms :: "string list"
  groupBy :: string
  transitiveClosure :: bool
  maxDistance :: int

definition builder_init :: builder where
  "builder_init =
     \<lparr>snippetCol = SnippetLead, joinClauses = [], whereExprs = [], additionalOrderTerms = [],
      groupBy = [], transitiveClosure = False, maxDistance = 0\<rparr>"

text \<open>The closure \<^verbatim>\<open>setupLinkFilter\<close>.\<close>

definition setupLinkFilter ::
  "database \<Rightarrow> builder \<Rightarrow> string list \<Rightarrow> int \<Rightarrow> bool \<Rightarrow> bool \<Rightarrow> error + builder" where
  "setupLinkFilter db b paths direction negate recursive =
     (case findIdsByPathPrefixes db paths of
        Inl err \<Rightarrow> Inl err
      | Inr ids \<Rightarrow>
          if length ids = 0 then Inr b
          else
            (let linksSrc = (if recursive then TransitiveClosure else LinksTable);
                 b1 = (if recursive then b\<lparr>transitiveClosure := True\<rparr> else b);
                 b2 = (if \<not> negate
                       then b1\<lparr>snippetCol := (if direction \<noteq> 0 then SnippetLinks else snippetCol b1),
                               joinClauses := joinClauses b1 @ [LeftJoinLinks linksSrc direction ids],
                               groupBy := ''GROUP BY n.id''\<rparr>
                       else b1)
             in Inr (b2\<lparr>whereExprs := whereExprs b2 @ [LinkIds negate linksSrc direction ids]\<rparr>)))"

text \<open>\<^verbatim>\<open>pathRegex\<close>.\<close>

definition pathRegex :: "env \<Rightarrow> string \<Rightarrow> string" where
  "pathRegex env path =
     icu_EscapePattern env path @ ''[^/]*|'' @ icu_EscapePattern env path @ ''/.+''"

text \<open>
  \<^verbatim>\<open>separatorRegex.Split(tagsArg, -1)\<close> for the regular expression \<^verbatim>\<open>(\ OR\ )|\|\<close>:
  the pieces between the occurrences of \<^verbatim>\<open>" OR "\<close> and \<^verbatim>\<open>"|"\<close>, read from the left.
  The first argument is the piece read so far.
\<close>

fun separatorRegex_Split :: "string \<Rightarrow> string \<Rightarrow> string list" where
  "separatorRegex_Split piece [] = [piece]"
| "separatorRegex_Split piece (c # cs) =
     (if c = CHR ''|'' then piece # separatorRegex_Split [] cs
      else if c = CHR '' '' \<and> take 3 cs = ''OR '' then piece # separatorRegex_Split [] (drop 3 cs)
      else separatorRegex_Split (piece @ [c]) cs)"

text \<open>
  The inner loop of the tag filter over the pieces of one group: the negation flag and the
  patterns that are bound to \<^verbatim>\<open>t.name GLOB ?\<close>.
\<close>

fun tag_globs :: "bool \<Rightarrow> string list \<Rightarrow> string list \<Rightarrow> bool \<times> string list" where
  "tag_globs negate globs [] = (negate, globs)"
| "tag_globs negate globs (tag # tags) =
     (let tag1 = strings_TrimSpace tag;
          negate' = (negate \<or> strings_HasPrefix tag1 ''-'' \<or> strings_HasPrefix tag1 ''NOT'');
          tag2 = (if strings_HasPrefix tag1 ''-'' then strings_TrimPrefix tag1 ''-''
                  else if strings_HasPrefix tag1 ''NOT'' then strings_TrimPrefix tag1 ''NOT''
                  else tag1);
          tag3 = strings_TrimSpace tag2
      in if length tag3 = 0 then tag_globs negate' globs tags
         else tag_globs negate' (globs @ [tag3]) tags)"

definition tag_group :: "string \<Rightarrow> bool \<times> string list" where
  "tag_group tagsArg = tag_globs False [] (separatorRegex_Split [] tagsArg)"

text \<open>The loop over \<^verbatim>\<open>opts.Tags\<close>.\<close>

fun tags_loop :: "builder \<Rightarrow> string list \<Rightarrow> error + builder" where
  "tags_loop b [] = Inr b"
| "tags_loop b (tagsArg # rest) =
     (case tag_group tagsArg of
        (negate, globs) \<Rightarrow>
          if length globs = 0 then tags_loop b rest
          else if negate \<and> length globs > 1 then Inl (InvalidQuery tagsArg)
          else tags_loop (b\<lparr>whereExprs := whereExprs b @ [TagGlobs negate globs]\<rparr>) rest)"

text \<open>\<^verbatim>\<open>orderTerm\<close>.\<close>

definition orderTerm :: "Sorter \<Rightarrow> error + string" where
  "orderTerm sorter =
     (let order = (if \<not> Ascending sorter then '' DESC'' else '' ASC'') in
      case Field sorter of
        SortCreated \<Rightarrow> Inr (''n.created'' @ order)
      | SortModified \<Rightarrow> Inr (''n.modified'' @ order)
      | SortPath \<Rightarrow> Inr (''n.path'' @ order)
      | SortRandom \<Rightarrow> Inr ''RANDOM()''
      | SortTitle \<Rightarrow> Inr (''n.title'' @ order)
      | SortWordCount \<Rightarrow> Inr (''n.word_count'' @ order)
      | SortOther \<Rightarrow> Inl PanicUnknownSortField)"

fun orderTerms_loop :: "Sorter list \<Rightarrow> error + string list" where
  "orderTerms_loop [] = Inr []"
| "orderTerms_loop (sorter # rest) =
     (case orderTerm sorter of
        Inl err \<Rightarrow> Inl err
      | Inr t \<Rightarrow> (case orderTerms_loop rest of Inl err \<Rightarrow> Inl err | Inr ts \<Rightarrow> Inr (t # ts)))"

text \<open>
  The steps of \<^verbatim>\<open>findRows\<close> up to the date bounds, in the order of the source: the match
  expression, the path filters, the excluded ids, the tags, then the link filters and the rest.
\<close>

definition filters_before_tags :: "env \<Rightarrow> FinderOpts \<Rightarrow> builder" where
  "filters_before_tags env opts =
     (let b0 = builder_init;
          b1 = (case Match opts of
                  None \<Rightarrow> b0
                | Some m \<Rightarrow>
                    b0\<lparr>snippetCol := SnippetFts,
                       joinClauses := joinClauses b0 @ [JoinFts],
                       additionalOrderTerms :=
                         additionalOrderTerms b0 @ [''bm25(notes_fts, 1000.0, 500.0, 1.0)''],
                       whereExprs := whereExprs b0 @ [MatchExpr (fts5_ConvertQuery env m)]\<rparr>);
          b2 = (case IncludePaths opts of
                  None \<Rightarrow> b1
                | Some ps \<Rightarrow> b1\<lparr>whereExprs := whereExprs b1 @ [PathRegexes (map (pathRegex env) ps)]\<rparr>);
          b3 = (case ExcludePaths opts of
                  None \<Rightarrow> b2
                | Some ps \<Rightarrow>
                    b2\<lparr>whereExprs := whereExprs b2 @ [PathNotRegexes (map (pathRegex env) ps)]\<rparr>)
      in case ExcludeIds opts of
           None \<Rightarrow> b3
         | Some ids \<Rightarrow> b3\<lparr>whereExprs := whereExprs b3 @ [IdNotIn ids]\<rparr>)"

definition linkedBy_step :: "database \<Rightarrow> FinderOpts \<Rightarrow> builder \<Rightarrow> error + builder" where
  "linkedBy_step db opts b =
     (case LinkedBy opts of
        None \<Rightarrow> Inr b
      | Some f \<Rightarrow>
          setupLinkFilter db (b\<lparr>maxDistance := MaxDistance f\<rparr>) (Paths f) (- 1) (Negate f)
            (Recursive f))"

definition linkTo_step :: "database \<Rightarrow> FinderOpts \<Rightarrow> builder \<Rightarrow> error + builder" where
  "linkTo_step db opts b =
     (case LinkTo opts of
        None \<Rightarrow> Inr b
      | Some f \<Rightarrow>
          setupLinkFilter db (b\<lparr>maxDistance := MaxDistance f\<rparr>) (Paths f) 1 (Negate f)
            (Recursive f))"

definition related_step :: "database \<Rightarrow> FinderOpts \<Rightarrow> builder \<Rightarrow> error + builder" where
  "related_step db opts b =
     (case Related opts of
        None \<Rightarrow> Inr b
      | Some paths \<Rightarrow>
          (case setupLinkFilter db (b\<lparr>maxDistance := 2\<rparr>) paths 0 False True of
             Inl err \<Rightarrow> Inl err
           | Inr b' \<Rightarrow> Inr (b'\<lparr>groupBy := groupBy b' @ '' HAVING MIN(l.distance) = 2''\<rparr>)))"

definition filters_after_links :: "FinderOpts \<Rightarrow> builder \<Rightarrow> builder" where
  "filters_after_links opts b =
     (let b1 = (if Orphan opts then b\<lparr>whereExprs := whereExprs b @ [OrphanExpr]\<rparr> else b);
          b2 = (case CreatedStart opts of
                  None \<Rightarrow> b1 | Some t \<Rightarrow> b1\<lparr>whereExprs := whereExprs b1 @ [CreatedGE t]\<rparr>);
          b3 = (case CreatedEnd opts of
                  None \<Rightarrow> b2 | Some t \<Rightarrow> b2\<lparr>whereExprs := whereExprs b2 @ [CreatedLT t]\<rparr>);
          b4 = (case ModifiedStart opts of
                  None \<Rightarrow> b3 | Some t \<Rightarrow> b3\<lparr>whereExprs := whereExprs b3 @ [ModifiedGE t]\<rparr>)
      in case ModifiedEnd opts of
           None \<Rightarrow> b4 | Some t \<Rightarrow> b4\<lparr>whereExprs := whereExprs b4 @ [ModifiedLT t]\<rparr>)"

definition filters :: "env \<Rightarrow> database \<Rightarrow> FinderOpts \<Rightarrow> error + builder" where
  "filters env db opts =
     (case tags_loop (filters_before_tags env opts) (case Tags opts of None \<Rightarrow> [] | Some ts \<Rightarrow> ts) of
        Inl err \<Rightarrow> Inl err
      | Inr b1 \<Rightarrow>
          (case linkedBy_step db opts b1 of
             Inl err \<Rightarrow> Inl err
           | Inr b2 \<Rightarrow>
               (case linkTo_step db opts b2 of
                  Inl err \<Rightarrow> Inl err
                | Inr b3 \<Rightarrow>
                    (case related_step db opts b3 of
                       Inl err \<Rightarrow> Inl err
                     | Inr b4 \<Rightarrow> Inr (filters_after_links opts b4)))))"

text \<open>
  The statement that \<^verbatim>\<open>findRows\<close> sends: \<open>q_closure\<close> is the bound of the
  \<^verbatim>\<open>WITH RECURSIVE transitive_closure\<close> prefix when it is there, \<open>q_limit\<close> the
  \<^verbatim>\<open>LIMIT\<close> when it is there.
\<close>

record sql_query =
  q_closure :: "int option"
  q_snippetCol :: snippet_col
  q_joinClauses :: "join_clause list"
  q_whereExprs :: "where_expr list"
  q_groupBy :: string
  q_orderTerms :: "string list"
  q_limit :: "int option"

definition findRows_query :: "env \<Rightarrow> database \<Rightarrow> FinderOpts \<Rightarrow> error + sql_query" where
  "findRows_query env db opts =
     (case filters env db opts of
        Inl err \<Rightarrow> Inl err
      | Inr b \<Rightarrow>
          (case orderTerms_loop (Sorters opts) of
             Inl err \<Rightarrow> Inl err
           | Inr sorterTerms \<Rightarrow>
               (let orderTerms = sorterTerms @ additionalOrderTerms b @ [''n.title ASC''] in
                Inr \<lparr>q_closure = (if transitiveClosure b then Some (maxDistance b) else None),
                     q_snippetCol = snippetCol b,
                     q_joinClauses = joinClauses b,
                     q_whereExprs = whereExprs b,
                     q_groupBy = groupBy b,
                     q_orderTerms =
                       (if transitiveClosure b then [''l.distance''] @ orderTerms else orderTerms),
                     q_limit = (if Limit opts > 0 then Some (Limit opts) else None)\<rparr>)))"

subsection \<open>Running the query\<close>

text \<open>
  The common table expression \<^verbatim>\<open>transitive_closure(source_id, target_id, title, snippet,
  distance, path)\<close>. Its \<^verbatim>\<open>path\<close> column is the text \<^verbatim>\<open>.id.id. ... .id.\<close>, kept here
  as the list of the ids; \<^verbatim>\<open>tc.path NOT LIKE '%.' || l.target_id || '.%'\<close> then says that
  the id is not in the list. A link without target gives a row whose path is \<^verbatim>\<open>NULL\<close>
  (the empty list here), which no recursive step extends.
\<close>

record tc_row =
  tc_source_id :: NoteId
  tc_target_id :: "NoteId option"
  tc_distance :: int
  tc_path :: "NoteId list"

text \<open>The initial select: \<^verbatim>\<open>SELECT source_id, target_id, ..., 1 AS distance, ... FROM links\<close>.\<close>

definition tc_initial :: "link_row list \<Rightarrow> tc_row list" where
  "tc_initial ls =
     map (\<lambda>l. \<lparr>tc_source_id = l_source_id l, tc_target_id = l_target_id l, tc_distance = 1,
               tc_path = (case l_target_id l of None \<Rightarrow> [] | Some t \<Rightarrow> [l_source_id l, t])\<rparr>) ls"

text \<open>
  The recursive select for one row \<open>tc\<close> of the table: \<^verbatim>\<open>FROM links AS l JOIN
  transitive_closure AS tc ON l.source_id = tc.target_id WHERE tc.path NOT LIKE ...\<close>, with
  \<^verbatim>\<open>AND tc.distance < maxDistance\<close> when \<^verbatim>\<open>maxDistance != 0\<close>.
\<close>

definition tc_recursive :: "link_row list \<Rightarrow> int \<Rightarrow> tc_row \<Rightarrow> tc_row list" where
  "tc_recursive ls maxd tc =
     concat (map (\<lambda>l.
       case l_target_id l of
         None \<Rightarrow> []
       | Some t \<Rightarrow>
           if Some (l_source_id l) = tc_target_id tc \<and> t \<notin> set (tc_path tc) \<and>
              (maxd = 0 \<or> tc_distance tc < maxd)
           then [\<lparr>tc_source_id = tc_source_id tc, tc_target_id = Some t,
                  tc_distance = tc_distance tc + 1, tc_path = tc_path tc @ [t]\<rparr>]
           else []) ls)"

text \<open>
  SQLite computes a recursive common table expression with a queue: the rows of the initial
  select enter the queue; a row leaves the queue, enters the table, and the rows that the
  recursive select yields for it enter the queue. \<^verbatim>\<open>LIMIT 100000\<close> ends the recursion
  when the table holds that many rows: the first argument counts the rows still allowed.
\<close>

fun tc_loop :: "nat \<Rightarrow> link_row list \<Rightarrow> int \<Rightarrow> tc_row list \<Rightarrow> tc_row list \<Rightarrow> tc_row list" where
  "tc_loop 0 ls maxd queue table = table"
| "tc_loop (Suc n) ls maxd [] table = table"
| "tc_loop (Suc n) ls maxd (r # queue) table =
     tc_loop n ls maxd (queue @ tc_recursive ls maxd r) (table @ [r])"

definition transitive_closure :: "link_row list \<Rightarrow> int \<Rightarrow> tc_row list" where
  "transitive_closure ls maxd = tc_loop 100000 ls maxd (tc_initial ls) []"

text \<open>The rows of the table that a fragment names, as pairs of source and target.\<close>

definition src_rows :: "database \<Rightarrow> tc_row list \<Rightarrow> links_src \<Rightarrow> (NoteId \<times> NoteId option) list" where
  "src_rows db tc src =
     (case src of
        LinksTable \<Rightarrow> map (\<lambda>l. (l_source_id l, l_target_id l)) (db_links db)
      | TransitiveClosure \<Rightarrow> map (\<lambda>r. (tc_source_id r, tc_target_id r)) tc)"

text \<open>
  The condition that both the \<^verbatim>\<open>ON\<close> of the join and the selects of \<open>LinkIds\<close> put on a
  row (source, target) for the note \<open>i\<close>: the row leads from one of the ids to the note
  (\<open>direction \<le> 0\<close>) or from the note to one of the ids (\<open>direction \<ge> 0\<close>).
\<close>

definition links_note :: "int \<Rightarrow> NoteId list \<Rightarrow> NoteId \<Rightarrow> NoteId \<times> NoteId option \<Rightarrow> bool" where
  "links_note direction ids i row =
     (case row of
        (s, None) \<Rightarrow> False
      | (s, Some t) \<Rightarrow>
          (direction \<le> 0 \<and> t = i \<and> s \<in> set ids) \<or> (direction \<ge> 0 \<and> s = i \<and> t \<in> set ids))"

text \<open>
  Modelled from the spec: the constant \<^verbatim>\<open>note.CollectionKindTag\<close> is declared outside the
  files at hand; the spec's tag associations are the collections of kind "tag".
\<close>

definition CollectionKindTag :: string where
  "CollectionKindTag = ''tag''"

definition has_tag :: "env \<Rightarrow> database \<Rightarrow> string list \<Rightarrow> NoteId \<Rightarrow> bool" where
  "has_tag env db globs i =
     (\<exists>nc \<in> set (db_notes_collections db). fst nc = i \<and>
        (\<exists>c \<in> set (db_collections db). c_id c = snd nc \<and> c_kind c = CollectionKindTag \<and>
           (\<exists>g \<in> set globs. glob env g (c_name c))))"

text \<open>Whether a note passes one expression of the \<^verbatim>\<open>WHERE\<close> clause.\<close>

fun where_holds :: "env \<Rightarrow> database \<Rightarrow> tc_row list \<Rightarrow> where_expr \<Rightarrow> note_row \<Rightarrow> bool" where
  "where_holds env db tc (MatchExpr q) n =
     (case fts_match env q of None \<Rightarrow> False | Some selects \<Rightarrow> selects n)"
| "where_holds env db tc (PathRegexes rs) n = (\<exists>r \<in> set rs. regexp env r (n_path n))"
| "where_holds env db tc (PathNotRegexes rs) n = (\<not> (\<exists>r \<in> set rs. regexp env r (n_path n)))"
| "where_holds env db tc (IdNotIn ids) n = (n_id n \<notin> set ids)"
| "where_holds env db tc (TagGlobs negate globs) n = (has_tag env db globs (n_id n) \<noteq> negate)"
| "where_holds env db tc (LinkIds negate src direction ids) n =
     ((\<exists>row \<in> set (src_rows db tc src). links_note direction ids (n_id n) row) \<noteq> negate)"
| "where_holds env db tc OrphanExpr n =
     (\<not> (\<exists>l \<in> set (db_links db). l_target_id l = Some (n_id n)))"
| "where_holds env db tc (CreatedGE t) n = (n_created n \<ge> t)"
| "where_holds env db tc (CreatedLT t) n = (n_created n < t)"
| "where_holds env db tc (ModifiedGE t) n = (n_modified n \<ge> t)"
| "where_holds env db tc (ModifiedLT t) n = (n_modified n < t)"

text \<open>
  \<^verbatim>\<open>GROUP BY n.id HAVING MIN(l.distance) = 2\<close> over the rows that the left join of
  \<^verbatim>\<open>transitive_closure l\<close> gives the note: the least distance of the joined rows is 2. A
  note without joined row has \<^verbatim>\<open>NULL\<close> for it and is dropped.
\<close>

definition joined_distances :: "tc_row list \<Rightarrow> int \<Rightarrow> NoteId list \<Rightarrow> NoteId \<Rightarrow> int list" where
  "joined_distances tc direction ids i =
     map tc_distance
       (filter (\<lambda>r. links_note direction ids i (tc_source_id r, tc_target_id r)) tc)"

definition having_min_distance_2 :: "tc_row list \<Rightarrow> join_clause list \<Rightarrow> note_row \<Rightarrow> bool" where
  "having_min_distance_2 tc joins n =
     (case filter (\<lambda>j. j \<noteq> JoinFts) joins of
        [LeftJoinLinks src direction ids] \<Rightarrow>
          (let ds = joined_distances tc direction ids (n_id n) in ds \<noteq> [] \<and> Min (set ds) = 2)
      | _ \<Rightarrow> False)"

text \<open>
  What SQLite rejects when it prepares the statement, \<open>None\<close> when it accepts it:
  \<^item> two joins under the one alias \<^verbatim>\<open>l\<close>, whose columns are then ambiguous;
  \<^item> a \<^verbatim>\<open>HAVING\<close> that no \<^verbatim>\<open>GROUP BY n.id\<close> precedes (there is then no join either, and
    \<^verbatim>\<open>l.distance\<close> names no column);
  \<^item> \<^verbatim>\<open>l.distance\<close>, in \<^verbatim>\<open>HAVING\<close> or in \<^verbatim>\<open>ORDER BY\<close>, when \<^verbatim>\<open>l\<close> is not a join
    of \<^verbatim>\<open>transitive_closure\<close> (the table \<^verbatim>\<open>links\<close> has no such column);
  \<^item> \<^verbatim>\<open>transitive_closure\<close> without its \<^verbatim>\<open>WITH RECURSIVE\<close> prefix;
  \<^item> an empty expression in the \<^verbatim>\<open>WHERE\<close> clause, from an empty list of path patterns;
  \<^item> a \<^verbatim>\<open>MATCH\<close> expression that FTS5 rejects.
\<close>

definition has_having :: "sql_query \<Rightarrow> bool" where
  "has_having q = (q_groupBy q = ''GROUP BY n.id HAVING MIN(l.distance) = 2'')"

definition sql_rejects :: "env \<Rightarrow> sql_query \<Rightarrow> string option" where
  "sql_rejects env q =
     (let linkJoins = filter (\<lambda>j. j \<noteq> JoinFts) (q_joinClauses q) in
      if length linkJoins > 1 then Some ''ambiguous column name: l.target_id''
      else if q_groupBy q \<noteq> [] \<and> q_groupBy q \<noteq> ''GROUP BY n.id'' \<and> \<not> has_having q
        then Some ''no such column: l.distance''
      else if (has_having q \<or> ''l.distance'' \<in> set (q_orderTerms q)) \<and>
              \<not> (case linkJoins of [LeftJoinLinks TransitiveClosure d ids] \<Rightarrow> True | _ \<Rightarrow> False)
        then Some ''no such column: l.distance''
      else if q_closure q = None \<and>
              (\<exists>j \<in> set (q_joinClauses q). case j of LeftJoinLinks TransitiveClosure d ids \<Rightarrow> True | _ \<Rightarrow> False)
        then Some ''no such table: transitive_closure''
      else if q_closure q = None \<and>
              (\<exists>w \<in> set (q_whereExprs q). case w of LinkIds neg TransitiveClosure d ids \<Rightarrow> True | _ \<Rightarrow> False)
        then Some ''no such table: transitive_closure''
      else if PathRegexes [] \<in> set (q_whereExprs q) \<or> PathNotRegexes [] \<in> set (q_whereExprs q)
        then Some ''syntax error''
      else if (\<exists>w \<in> set (q_whereExprs q). case w of MatchExpr m \<Rightarrow> fts_match env m = None | _ \<Rightarrow> False)
        then Some ''fts5: syntax error''
      else None)"

text \<open>
  \<^verbatim>\<open>d.tx.Query(query, args...)\<close>: the notes that pass every expression of the
  \<^verbatim>\<open>WHERE\<close> clause and the \<^verbatim>\<open>HAVING\<close>, one row for each note (the joins are on the
  note's id and the rows of a note are grouped again), ordered by the rank the engine gives the
  \<^verbatim>\<open>ORDER BY\<close> terms and cut at the \<^verbatim>\<open>LIMIT\<close>.
\<close>

definition tx_Query :: "env \<Rightarrow> database \<Rightarrow> sql_query \<Rightarrow> error + note_row list" where
  "tx_Query env db q =
     (if db_failing db then Inl DbFailure
      else
        (case sql_rejects env q of
           Some msg \<Rightarrow> Inl (SqlError msg)
         | None \<Rightarrow>
             (let tc = (case q_closure q of
                          None \<Rightarrow> []
                        | Some maxd \<Rightarrow> transitive_closure (db_links db) maxd);
                  selected =
                    filter (\<lambda>n. list_all (\<lambda>w. where_holds env db tc w n) (q_whereExprs q) \<and>
                                (has_having q \<longrightarrow> having_min_distance_2 tc (q_joinClauses q) n))
                      (db_notes db);
                  ordered = sort_key (order_key env (q_orderTerms q)) selected
              in Inr (case q_limit q of None \<Rightarrow> ordered | Some k \<Rightarrow> take (nat k) ordered))))"

text \<open>\<^verbatim>\<open>findRows\<close>: build the statement, run it.\<close>

definition findRows :: "env \<Rightarrow> database \<Rightarrow> FinderOpts \<Rightarrow> error + note_row list" where
  "findRows env db opts =
     (case findRows_query env db opts of
        Inl err \<Rightarrow> Inl err
      | Inr q \<Rightarrow> tx_Query env db q)"

text \<open>
  \<^verbatim>\<open>Find\<close>. Every row that \<^verbatim>\<open>findRows\<close> returns becomes a \<^verbatim>\<open>note.Match\<close>, which
  copies the columns of the row; the result here is the list of the rows.
\<close>

definition Find :: "env \<Rightarrow> database \<Rightarrow> FinderOpts \<Rightarrow> error + note_row list" where
  "Find env db opts =
     (case expandMentionsIntoMatch db opts of
        Inl err \<Rightarrow> Inl err
      | Inr opts' \<Rightarrow> findRows env db opts')"

subsection \<open>Sample data\<close>

text \<open>
  An engine whose patterns match by equality, whose full-text index selects every note for
  every expression and which ranks all rows alike; plain rows of the tables; the options
  that filter nothing.
\<close>

definition sample_env :: env where
  "sample_env =
     \<lparr>glob = (\<lambda>p s. p = s), regexp = (\<lambda>p s. p = s), icu_EscapePattern = (\<lambda>s. s),
      fts5_ConvertQuery = (\<lambda>s. s), fts_match = (\<lambda>q. Some (\<lambda>n. True)),
      order_key = (\<lambda>ts n. 0)\<rparr>"

definition note_at :: "NoteId \<Rightarrow> string \<Rightarrow> note_row" where
  "note_at i p =
     \<lparr>n_id = i, n_path = p, n_sortable_path = p, n_title = p, n_lead = [], n_body = [],
      n_raw_content = [], n_word_count = 0, n_metadata = Some [], n_checksum = [],
      n_created = 0, n_modified = 0\<rparr>"

definition link_at :: "NoteId \<Rightarrow> NoteId option \<Rightarrow> string \<Rightarrow> link_row" where
  "link_at s t h =
     \<lparr>l_source_id = s, l_target_id = t, l_title = [], l_href = h, l_external = False,
      l_rels = [], l_snippet = [], l_snippet_start = 0, l_snippet_end = 0\<rparr>"

definition no_filter :: FinderOpts where
  "no_filter =
     \<lparr>Match = None, IncludePaths = None, ExcludePaths = None, ExcludeIds = None, Tags = None,
      Mention = None, LinkedBy = None, LinkTo = None, Related = None, Orphan = False,
      CreatedStart = None, CreatedEnd = None, ModifiedStart = None, ModifiedEnd = None,
      Sorters = [], Limit = 0\<rparr>"

text \<open>
  The options with one link filter on one path (\<^verbatim>\<open>LinkedBy\<close>, \<^verbatim>\<open>LinkTo\<close>,
  \<^verbatim>\<open>Related\<close>), the options that mention \<open>note-x\<close>, and a sorter by creation time,
  ascending.
\<close>

definition linked_by :: "string \<Rightarrow> bool \<Rightarrow> int \<Rightarrow> FinderOpts" where
  "linked_by p recursive maxd =
     no_filter\<lparr>LinkedBy := Some \<lparr>Paths = [p], Negate = False, Recursive = recursive, MaxDistance = maxd\<rparr>\<rparr>"

definition link_to :: "string \<Rightarrow> bool \<Rightarrow> int \<Rightarrow> FinderOpts" where
  "link_to p recursive maxd =
     no_filter\<lparr>LinkTo := Some \<lparr>Paths = [p], Negate = False, Recursive = recursive, MaxDistance = maxd\<rparr>\<rparr>"



definition by_created :: Sorter where
  "by_created = \<lparr>Field = SortCreated, Ascending = True\<rparr>"

text \<open>
  The index with the chain of links \<open>a \<rightarrow> b \<rightarrow> c \<rightarrow> d\<close>; the same with the note \<open>b\<close>
  tagged \<open>foo\<close>; the index with the links \<open>a \<rightarrow> b\<close> and \<open>c \<rightarrow> b\<close>; the index with
  the note \<open>note-x\<close>, whose metadata has the alias \<open>nx\<close>, and another note.
\<close>

definition chain_db :: database where
  "chain_db =
     \<lparr>db_notes = [note_at 1 ''a'', note_at 2 ''b'', note_at 3 ''c'', note_at 4 ''d''],
      db_links = [link_at 1 (Some 2) ''b'', link_at 2 (Some 3) ''c'', link_at 3 (Some 4) ''d''],
      db_collections = [], db_notes_collections = [], db_failing = False\<rparr>"


definition cocitation_db :: database where
  "cocitation_db =
     \<lparr>db_notes = [note_at 1 ''a'', note_at 2 ''b'', note_at 3 ''c''],
      db_links = [link_at 1 (Some 2) ''b'', link_at 3 (Some 2) ''b''],
      db_collections = [], db_notes_collections = [], db_failing = False\<rparr>"


text \<open>
  A note as the parser hands it over, with links to the given hrefs; the empty index; the
  index after \<^verbatim>\<open>Add\<close> of a note \<open>a\<close> that links to the path \<open>b/note\<close>, and after
  \<^verbatim>\<open>Add\<close> of a note at \<open>b/note\<close>.
\<close>

definition note_with :: "string \<Rightarrow> string list \<Rightarrow> Metadata" where
  "note_with p hrefs =
     \<lparr>Path = p, Title = p, Lead = [], Body = [], RawContent = [], WordCount = 0,
      Links = map (\<lambda>h. \<lparr>LinkTitle = [], Href = h, External = False, Rels = [], Snippet = [],
                         SnippetStart = 0, SnippetEnd = 0\<rparr>) hrefs,
      MetadataMap = [], Created = 7, Modified = 7, Checksum = []\<rparr>"

definition empty_db :: database where
  "empty_db =
     \<lparr>db_notes = [], db_links = [], db_collections = [], db_notes_collections = [],
      db_failing = False\<rparr>"

definition forward_db1 :: database where
  "forward_db1 =
     \<lparr>db_notes = [(note_at 1 ''a'')\<lparr>n_created := 7, n_modified := 7\<rparr>],
      db_links = [link_at 1 None ''b/note''],
      db_collections = [], db_notes_collections = [], db_failing = False\<rparr>"

definition forward_db2 :: database where
  "forward_db2 =
     \<lparr>db_notes = [(note_at 1 ''a'')\<lparr>n_created := 7, n_modified := 7\<rparr>,
                 (note_at 2 ''b/note'')\<lparr>n_sortable_path := [CHR ''b'', CHR 0x01, CHR ''n'', CHR ''o'', CHR ''t'', CHR ''e''],
                    n_created := 7, n_modified := 7\<rparr>],
      db_links = [link_at 1 (Some 2) ''b/note''],
      db_collections = [], db_notes_collections = [], db_failing = False\<rparr>"

subsection \<open>Closed forms of the writer's statements\<close>

text \<open>
  Names for what the statements of \<^verbatim>\<open>addLinks\<close>, \<^verbatim>\<open>Add\<close> and \<^verbatim>\<open>Update\<close> compute:
  the target that the prefix lookup finds for an href (\<open>0\<close> when it finds none), the
  effect of \<^verbatim>\<open>setLinksTargetStmt\<close> on one link, the row that \<^verbatim>\<open>addStmt\<close> inserts and
  the effect of \<^verbatim>\<open>updateStmt\<close> on one row.
\<close>

definition resolved :: "database \<Rightarrow> string \<Rightarrow> NoteId" where
  "resolved db h = (case findIdByPathPrefix db h of Inl err \<Rightarrow> 0 | Inr t \<Rightarrow> t)"

definition healed :: "NoteId \<Rightarrow> string \<Rightarrow> link_row \<Rightarrow> link_row" where
  "healed i path l =
     (if l_target_id l = None \<and> \<not> l_external l \<and> sql_like (l_href l @ ''%'') path
      then l\<lparr>l_target_id := Some i\<rparr> else l)"

definition added_row :: "database \<Rightarrow> Metadata \<Rightarrow> note_row" where
  "added_row db m =
     \<lparr>n_id = LastInsertId db, n_path = Path m,
      n_sortable_path = strings_ReplaceAll (Path m) CHR ''/'' [CHR 0x01],
      n_title = Title m, n_lead = Lead m, n_body = Body m,
      n_raw_content = RawContent m, n_word_count = WordCount m,
      n_metadata = Some (MetadataMap m), n_checksum = Checksum m,
      n_created = Created m, n_modified = Modified m\<rparr>"

definition updated_row :: "Metadata \<Rightarrow> note_row \<Rightarrow> note_row" where
  "updated_row m n =
     (if n_path n = Path m
      then n\<lparr>n_title := Title m, n_lead := Lead m, n_body := Body m,
             n_raw_content := RawContent m, n_word_count := WordCount m,
             n_metadata := Some (MetadataMap m), n_checksum := Checksum m,
             n_modified := Modified m\<rparr>
      else n)"

subsection \<open>Names for the effects of the filter steps\<close>


definition offending :: "string \<Rightarrow> bool" where
  "offending g = (fst (tag_group g) \<and> length (snd (tag_group g)) > 1)"

definition tag_exprs :: "string list \<Rightarrow> where_expr list" where
  "tag_exprs ts =
     concat (map (\<lambda>g. if length (snd (tag_group g)) = 0 then []
                       else [TagGlobs (fst (tag_group g)) (snd (tag_group g))]) ts)"

definition extends :: "builder \<Rightarrow> builder \<Rightarrow> bool" where
  "extends b b' =
     (additionalOrderTerms b' = additionalOrderTerms b \<and>
      (\<exists>X. whereExprs b' = whereExprs b @ X))"

text \<open>
  The end of \<^verbatim>\<open>findRows\<close> by parts: the statement built from a builder and the terms of
  the sorters, and the steps from the \<^verbatim>\<open>Related\<close> filter on; the rows of
  \<^verbatim>\<open>transitive_closure\<close> that a statement computes.
\<close>

definition statement_of :: "FinderOpts \<Rightarrow> builder \<Rightarrow> error + sql_query" where
  "statement_of opts b =
     (case orderTerms_loop (Sorters opts) of
        Inl err \<Rightarrow> Inl err
      | Inr sorterTerms \<Rightarrow>
          (let orderTerms = sorterTerms @ additionalOrderTerms b @ [''n.title ASC''] in
           Inr \<lparr>q_closure = (if transitiveClosure b then Some (maxDistance b) else None),
                q_snippetCol = snippetCol b,
                q_joinClauses = joinClauses b,
                q_whereExprs = whereExprs b,
                q_groupBy = groupBy b,
                q_orderTerms =
                  (if transitiveClosure b then [''l.distance''] @ orderTerms else orderTerms),
                q_limit = (if Limit opts > 0 then Some (Limit opts) else None)\<rparr>))"

definition rest_of :: "database \<Rightarrow> FinderOpts \<Rightarrow> builder \<Rightarrow> error + sql_query" where
  "rest_of db opts b3 =
     (case related_step db opts b3 of
        Inl err \<Rightarrow> Inl err
      | Inr b4 \<Rightarrow> statement_of opts (filters_after_links opts b4))"


subsection \<open>Chains of links\<close>

text \<open>
  The graph of the resolved links, in the words of the spec: \<open>link_edge ls s t\<close> when some
  stored link leads from the note \<open>s\<close> to the note \<open>t\<close>; \<open>link_chain ls p\<close> when the list
  \<open>p\<close> of at least two notes follows links from each note to the next and, from its third
  note on, never comes to a note that is already on it (\<open>chain_rev\<close> reads the list from
  its end). The distance of a chain is the number of its links, \<open>length p - 1\<close>;
  \<open>within maxd p\<close> says that the chain respects the bound, no bound when \<open>maxd = 0\<close>.
  \<open>chain_row\<close> is the row of \<^verbatim>\<open>transitive_closure\<close> that stands for a chain.
\<close>

definition link_edge :: "link_row list \<Rightarrow> NoteId \<Rightarrow> NoteId \<Rightarrow> bool" where
  "link_edge ls s t = (\<exists>l \<in> set ls. l_source_id l = s \<and> l_target_id l = Some t)"

fun chain_rev :: "link_row list \<Rightarrow> NoteId list \<Rightarrow> bool" where
  "chain_rev ls [t, s] = link_edge ls s t"
| "chain_rev ls (t # u # v # rest) =
     (link_edge ls u t \<and> t \<notin> set (u # v # rest) \<and> chain_rev ls (u # v # rest))"
| "chain_rev ls [t] = False"
| "chain_rev ls [] = False"

definition link_chain :: "link_row list \<Rightarrow> NoteId list \<Rightarrow> bool" where
  "link_chain ls p = chain_rev ls (rev p)"

definition within :: "int \<Rightarrow> NoteId list \<Rightarrow> bool" where
  "within maxd p = (maxd = 0 \<or> int (length p) - 1 \<le> maxd)"

definition chain_row :: "link_row list \<Rightarrow> int \<Rightarrow> tc_row \<Rightarrow> bool" where
  "chain_row ls maxd r =
     (link_chain ls (tc_path r) \<and> within maxd (tc_path r) \<and>
      tc_source_id r = hd (tc_path r) \<and> tc_target_id r = Some (last (tc_path r)) \<and>
      tc_distance r = int (length (tc_path r)) - 1)"

section \<open>Properties\<close>

subsection \<open>Id lookups\<close>

lemma filter_no_match: "\<not> (\<exists>x \<in> set xs. P x) \<Longrightarrow> filter P xs = []"
  by (induction xs) auto

text \<open>
  C10. A lookup of a path (or of a path prefix) that no note matches returns the invalid id
  \<open>0\<close> and no error: the \<^verbatim>\<open>sql.ErrNoRows\<close> of the scan is absorbed by
  \<^verbatim>\<open>idForRow\<close>. A lookup returns an error only when the database fails.
\<close>

theorem lookups_absorb_no_rows:
  "(\<not> db_failing db \<and> path \<notin> set (map n_path (db_notes db)) \<longrightarrow> findIdByPath db path = Inr 0) \<and>
   (\<not> db_failing db \<and> \<not> (\<exists>n \<in> set (db_notes db). sql_like (path @ ''%'') (n_path n))
      \<longrightarrow> findIdByPathPrefix db path = Inr 0) \<and>
   \<not> IsValid 0 \<and>
   (findIdByPath db path = Inl err \<longrightarrow> db_failing db \<and> err = DbFailure) \<and>
   (findIdByPathPrefix db path = Inl err \<longrightarrow> db_failing db \<and> err = DbFailure)"
proof -
  have a: "findIdByPath db path = Inr 0"
    if "\<not> db_failing db" and "path \<notin> set (map n_path (db_notes db))"
  proof -
    from that(2) have "filter (\<lambda>n. n_path n = path) (db_notes db) = []"
      by (intro filter_no_match) auto
    with that(1) show ?thesis by (simp add: findIdByPath_def select_id_QueryRow_def)
  qed
  have b: "findIdByPathPrefix db path = Inr 0"
    if "\<not> db_failing db" and "\<not> (\<exists>n \<in> set (db_notes db). sql_like (path @ ''%'') (n_path n))"
  proof -
    from that(2) have "filter (\<lambda>n. sql_like (path @ ''%'') (n_path n)) (db_notes db) = []"
      by (rule filter_no_match)
    with that(1) show ?thesis by (simp add: findIdByPathPrefix_def select_id_QueryRow_def)
  qed
  have c: "findIdByPath db path = Inl err \<Longrightarrow> db_failing db \<and> err = DbFailure"
    by (auto simp: findIdByPath_def select_id_QueryRow_def split: if_splits list.splits)
  have d: "findIdByPathPrefix db path = Inl err \<Longrightarrow> db_failing db \<and> err = DbFailure"
    by (auto simp: findIdByPathPrefix_def select_id_QueryRow_def split: if_splits list.splits)
  have e: "\<not> IsValid 0" by (simp add: IsValid_def)
  from a b c d e show ?thesis by blast
qed

lemma chain_db_no_zz:
  "\<not> db_failing chain_db \<and> ''zz'' \<notin> set (map n_path (db_notes chain_db)) \<and>
   \<not> (\<exists>n \<in> set (db_notes chain_db). sql_like (''zz'' @ ''%'') (n_path n))"
  by (simp add: chain_db_def note_at_def ascii_lower_def)

theorem lookups_absorb_no_rows_witness:
  "\<not> db_failing chain_db \<and> ''zz'' \<notin> set (map n_path (db_notes chain_db)) \<and>
   \<not> (\<exists>n \<in> set (db_notes chain_db). sql_like (''zz'' @ ''%'') (n_path n)) \<and>
   findIdByPath chain_db ''zz'' = Inr 0 \<and> findIdByPathPrefix chain_db ''zz'' = Inr 0 \<and>
   findIdByPath (chain_db\<lparr>db_failing := True\<rparr>) ''a'' = Inl DbFailure"
proof -
  have f: "findIdByPath (chain_db\<lparr>db_failing := True\<rparr>) ''a'' = Inl DbFailure"
    by (simp add: findIdByPath_def select_id_QueryRow_def)
  from chain_db_no_zz f lookups_absorb_no_rows [of chain_db "''zz''" DbFailure]
  show ?thesis by blast
qed

subsection \<open>Mention expansion\<close>









subsection \<open>The index writer\<close>

lemma like_skip: "sql_like ps cs \<Longrightarrow> sql_like (CHR ''%'' # ps) cs"
  by (cases cs) auto

lemma like_percent: "sql_like ''%'' s"
  by (induction s) auto

lemma like_append: "sql_like (h @ ''%'') (h @ s)"
proof (induction h)
  case Nil
  show ?case using like_percent by simp
next
  case (Cons c h)
  then show ?case by (auto simp: like_skip)
qed

lemma like_prefix: "prefix h p \<Longrightarrow> sql_like (h @ ''%'') p"
  by (auto simp: prefix_def like_append)

lemma findIdByPathPrefix_links [simp]:
  "findIdByPathPrefix (db\<lparr>db_links := x\<rparr>) h = findIdByPathPrefix db h"
  by (simp add: findIdByPathPrefix_def select_id_QueryRow_def)

lemma resolved_links [simp]: "resolved (db\<lparr>db_links := x\<rparr>) h = resolved db h"
  by (simp add: resolved_def)

lemma findIdByPathPrefix_resolved:
  "\<not> db_failing db \<Longrightarrow> findIdByPathPrefix db h = Inr (resolved db h)"
  by (simp add: resolved_def findIdByPathPrefix_def select_id_QueryRow_def split: list.splits)

lemma findIdByPathPrefix_failing:
  "db_failing db \<Longrightarrow> findIdByPathPrefix db h = Inl DbFailure"
  by (simp add: findIdByPathPrefix_def select_id_QueryRow_def)

lemma addLinks_loop_eq:
  "addLinks_loop db i ks =
     (if db_failing db \<and> ks \<noteq> [] then Inl DbFailure
      else Inr (db\<lparr>db_links := db_links db @ map (\<lambda>k. link_row_of i (resolved db (Href k)) k) ks\<rparr>))"
proof (induction ks arbitrary: db)
  case Nil
  show ?case by simp
next
  case (Cons k ks)
  show ?case
  proof (cases "db_failing db")
    case True
    then show ?thesis by (simp add: findIdByPathPrefix_failing)
  next
    case False
    then show ?thesis
      by (simp add: findIdByPathPrefix_resolved addLinkStmt_Exec_def Cons.IH)
  qed
qed

lemma addLinks_eq:
  "\<not> db_failing db \<Longrightarrow>
   addLinks db i m =
     Inr (db\<lparr>db_links := map (healed i (Path m))
            (db_links db @ map (\<lambda>k. link_row_of i (resolved db (Href k)) k) (Links m))\<rparr>)"
  by (simp add: addLinks_def addLinks_loop_eq setLinksTargetStmt_Exec_def healed_def)

lemma addLinks_failing: "db_failing db \<Longrightarrow> addLinks db i m = Inl DbFailure"
  by (simp add: addLinks_def addLinks_loop_eq setLinksTargetStmt_Exec_def)

lemma resolved_cong:
  "db_notes db' = db_notes db \<Longrightarrow> db_failing db' = db_failing db \<Longrightarrow> resolved db' h = resolved db h"
  by (simp add: resolved_def findIdByPathPrefix_def select_id_QueryRow_def)

lemma Add_eq:
  "Add db m =
     (if db_failing db then Inl DbFailure
      else if Path m \<in> set (map n_path (db_notes db)) then Inl (DuplicatePath (Path m))
      else Inr (LastInsertId db,
             db\<lparr>db_notes := db_notes db @ [added_row db m],
                db_links := map (healed (LastInsertId db) (Path m))
                  (db_links db @
                   map (\<lambda>k. link_row_of (LastInsertId db)
                          (resolved (db\<lparr>db_notes := db_notes db @ [added_row db m]\<rparr>) (Href k)) k)
                     (Links m))\<rparr>))"
  by (simp add: Add_def addStmt_Exec_def addLinks_eq added_row_def)

lemma findIdByPath_eq:
  "\<not> db_failing db \<Longrightarrow>
   findIdByPath db p = Inr (case filter (\<lambda>n. n_path n = p) (db_notes db) of [] \<Rightarrow> 0 | n # ns \<Rightarrow> n_id n)"
  by (simp add: findIdByPath_def select_id_QueryRow_def split: list.splits)

lemma Update_eq:
  "\<not> db_failing db \<Longrightarrow>
   Update db m =
     (let i = (case filter (\<lambda>n. n_path n = Path m) (db_notes db) of [] \<Rightarrow> 0 | n # ns \<Rightarrow> n_id n) in
      if \<not> IsValid i then Inl NotFound
      else Inr (i,
        db\<lparr>db_notes := map (updated_row m) (db_notes db),
           db_links := map (healed i (Path m))
             (filter (\<lambda>l. l_source_id l \<noteq> i) (db_links db) @
              map (\<lambda>k. link_row_of i
                     (resolved (db\<lparr>db_notes := map (updated_row m) (db_notes db)\<rparr>) (Href k)) k)
                (Links m))\<rparr>))"
  by (simp add: Update_def findIdByPath_eq Let_def updateStmt_Exec_def removeLinksStmt_Exec_def
      idToSql_def addLinks_eq updated_row_def [abs_def])

lemma add_a: "Add empty_db (note_with ''a'' [''b/note'']) = Inr (1, forward_db1)"
  by (simp add: Add_eq empty_db_def note_with_def forward_db1_def added_row_def LastInsertId_def
      note_at_def link_at_def healed_def link_row_of_def resolved_def findIdByPathPrefix_def
      select_id_QueryRow_def idToSql_def IsValid_def joinLinkRels_def strings_ReplaceAll_def
      ascii_lower_def)

lemma add_b: "Add forward_db1 (note_with ''b/note'' []) = Inr (2, forward_db2)"
  by (simp add: Add_eq note_with_def forward_db1_def forward_db2_def added_row_def LastInsertId_def
      note_at_def link_at_def healed_def link_row_of_def resolved_def findIdByPathPrefix_def
      select_id_QueryRow_def idToSql_def IsValid_def joinLinkRels_def strings_ReplaceAll_def
      ascii_lower_def)

lemmas sample_defs = sample_env_def note_at_def link_at_def no_filter_def
lemmas lookup_defs = findIdByPathPrefix_def select_id_QueryRow_def IsValid_def ascii_lower_def
lemmas query_defs = Find_def expandMentionsIntoMatch_def findRows_def findRows_query_def filters_def
  filters_before_tags_def builder_init_def linkedBy_step_def linkTo_step_def related_step_def
  filters_after_links_def setupLinkFilter_def Let_def
lemmas run_defs = tx_Query_def sql_rejects_def has_having_def src_rows_def links_note_def
  having_min_distance_2_def joined_distances_def

lemma healed_source [simp]: "l_source_id (healed i p l) = l_source_id l"
  by (simp add: healed_def)

lemma healed_untarget [simp]: "(healed i p l)\<lparr>l_target_id := None\<rparr> = l\<lparr>l_target_id := None\<rparr>"
  by (simp add: healed_def)

lemma link_row_of_untarget [simp]:
  "(link_row_of i t k)\<lparr>l_target_id := None\<rparr> = link_row_of i 0 k"
  by (simp add: link_row_of_def idToSql_def IsValid_def)

lemma link_row_of_source [simp]: "l_source_id (link_row_of i t k) = i"
  by (simp add: link_row_of_def)

lemma filter_map_healed:
  "filter (\<lambda>l. P (l_source_id l)) (map (healed i p) ls) =
   map (healed i p) (filter (\<lambda>l. P (l_source_id l)) ls)"
  by (induction ls) auto

text \<open>
  C6 (as amended). On a database that works, \<^verbatim>\<open>Update\<close> of a path that no note has fails
  with \<open>NotFound\<close>. When it succeeds, every row of that path has its title, lead, body, raw
  content, word count, metadata, checksum and modification time replaced (\<open>updated_row\<close>),
  while the creation time of every row stays as stored; the links that leave the note are,
  up to their resolved targets, exactly the links of the new record, and the links of the
  other notes are the old ones, healed.
\<close>

theorem update_replaces_content_and_links:
  assumes "\<not> db_failing db"
  shows "(Path m \<notin> set (map n_path (db_notes db)) \<longrightarrow> Update db m = Inl NotFound) \<and>
    (Update db m = Inr (i, db') \<longrightarrow>
       db_notes db' = map (updated_row m) (db_notes db) \<and>
       map n_created (db_notes db') = map n_created (db_notes db) \<and>
       map (\<lambda>l. l\<lparr>l_target_id := None\<rparr>) (filter (\<lambda>l. l_source_id l = i) (db_links db')) =
         map (link_row_of i 0) (Links m) \<and>
       filter (\<lambda>l. l_source_id l \<noteq> i) (db_links db') =
         map (healed i (Path m)) (filter (\<lambda>l. l_source_id l \<noteq> i) (db_links db)))"
proof (intro conjI impI)
  assume "Path m \<notin> set (map n_path (db_notes db))"
  then have "\<forall>n \<in> set (db_notes db). n_path n \<noteq> Path m" by force
  then have "filter (\<lambda>n. n_path n = Path m) (db_notes db) = []"
    by (simp add: filter_empty_conv)
  with assms show "Update db m = Inl NotFound"
    by (simp add: Update_eq IsValid_def)
next
  assume u: "Update db m = Inr (i, db')"
  define new where
    "new = map (\<lambda>k. link_row_of i
              (resolved (db\<lparr>db_notes := map (updated_row m) (db_notes db)\<rparr>) (Href k)) k) (Links m)"
  from u assms have n: "db_notes db' = map (updated_row m) (db_notes db)"
    and l: "db_links db' =
      map (healed i (Path m)) (filter (\<lambda>l. l_source_id l \<noteq> i) (db_links db) @ new)"
    by (auto simp: Update_eq Let_def new_def split: if_splits)
  show "db_notes db' = map (updated_row m) (db_notes db)" by (rule n)
  show "map n_created (db_notes db') = map n_created (db_notes db)"
    by (simp add: n updated_row_def [abs_def] comp_def)
  have f1: "filter (\<lambda>l. l_source_id l = i) new = new"
    by (simp add: new_def filter_map comp_def)
  have f2: "filter (\<lambda>l. l_source_id l \<noteq> i) new = []"
    by (simp add: new_def filter_map comp_def)
  have "filter (\<lambda>l. l_source_id l = i) (db_links db') = map (healed i (Path m)) new"
    by (simp add: l filter_map_healed [where P = "\<lambda>s. s = i"] f1)
  then show "map (\<lambda>l. l\<lparr>l_target_id := None\<rparr>) (filter (\<lambda>l. l_source_id l = i) (db_links db')) =
         map (link_row_of i 0) (Links m)"
    by (simp add: new_def comp_def)
  show "filter (\<lambda>l. l_source_id l \<noteq> i) (db_links db') =
         map (healed i (Path m)) (filter (\<lambda>l. l_source_id l \<noteq> i) (db_links db))"
    by (simp add: l filter_map_healed [where P = "\<lambda>s. s \<noteq> i"] f2)
qed

lemma update_chain_a:
  "\<exists>db'. Update chain_db (note_with ''a'' [''c'']) = Inr (1, db')"
  by (simp add: Update_eq chain_db_def note_with_def note_at_def IsValid_def)

lemma update_chain_zz:
  "\<not> db_failing chain_db \<and> Path (note_with ''zz'' []) \<notin> set (map n_path (db_notes chain_db))"
  by (simp add: chain_db_def note_with_def note_at_def)

theorem update_replaces_content_and_links_witness:
  "\<not> db_failing chain_db \<and>
   Path (note_with ''zz'' []) \<notin> set (map n_path (db_notes chain_db)) \<and>
   Update chain_db (note_with ''zz'' []) = Inl NotFound \<and>
   (\<exists>db'. Update chain_db (note_with ''a'' [''c'']) = Inr (1, db') \<and>
      db_notes db' = map (updated_row (note_with ''a'' [''c''])) (db_notes chain_db) \<and>
      map (\<lambda>l. l\<lparr>l_target_id := None\<rparr>) (filter (\<lambda>l. l_source_id l = 1) (db_links db')) =
        map (link_row_of 1 0) (Links (note_with ''a'' [''c''])))"
proof -
  from update_chain_a obtain db' where u: "Update chain_db (note_with ''a'' [''c'']) = Inr (1, db')" ..
  from update_chain_zz have nf: "\<not> db_failing chain_db" by simp
  from update_replaces_content_and_links [OF nf, of "note_with ''zz'' []"] update_chain_zz
  have a: "Update chain_db (note_with ''zz'' []) = Inl NotFound" by blast
  from update_replaces_content_and_links [OF nf, of "note_with ''a'' [''c'']" 1 db'] u
  have b: "db_notes db' = map (updated_row (note_with ''a'' [''c''])) (db_notes chain_db) \<and>
      map (\<lambda>l. l\<lparr>l_target_id := None\<rparr>) (filter (\<lambda>l. l_source_id l = 1) (db_links db')) =
        map (link_row_of 1 0) (Links (note_with ''a'' [''c'']))" by blast
  from update_chain_zz a u b show ?thesis by blast
qed

text \<open>
  C6 as stated fails: \<^verbatim>\<open>updateStmt\<close> does not set \<^verbatim>\<open>created\<close>. Updating the note
  \<open>a\<close> of the chain (created at 0) with a record created at 7 leaves 0 in the row.
\<close>

theorem update_leaves_created:
  "\<exists>i db'. Update chain_db (note_with ''a'' [''c'']) = Inr (i, db') \<and>
     (\<exists>n \<in> set (db_notes db'). n_path n = Path (note_with ''a'' [''c'']) \<and>
        n_created n \<noteq> Created (note_with ''a'' [''c'']))"
  by (simp add: Update_eq chain_db_def note_with_def note_at_def IsValid_def updated_row_def)

lemma forward_linked_by:
  "map_sum id (map n_path) (Find sample_env forward_db2 (linked_by ''a'' False 0)) = Inr [''b/note'']"
  by (simp add: linked_by_def sample_defs lookup_defs query_defs run_defs forward_db2_def)

lemma forward_link_to:
  "Find sample_env forward_db2 (link_to ''a'' False 0) = Inr []"
  by (simp add: link_to_def sample_defs lookup_defs query_defs run_defs forward_db2_def)

text \<open>
  C3 (as amended). After \<^verbatim>\<open>Add\<close> of a note, every link that was stored before, is not
  external, has no target and has an href that is a prefix of the note's path has the new
  note's id for target. So when \<open>a\<close> is added with a link to the path \<open>b/note\<close> that no
  note has yet and a note is then added at \<open>b/note\<close>, the filter \<^verbatim>\<open>LinkedBy\<close> on
  \<open>a\<close> returns the new note.
\<close>

theorem add_heals_forward_links:
  "(Add db m = Inr (i, db') \<and> j < length (db_links db) \<and>
    l_target_id (db_links db ! j) = None \<and> \<not> l_external (db_links db ! j) \<and>
    prefix (l_href (db_links db ! j)) (Path m)
    \<longrightarrow> db_links db' ! j = (db_links db ! j)\<lparr>l_target_id := Some i\<rparr>) \<and>
   (\<exists>db1 db2.
      Add empty_db (note_with ''a'' [''b/note'']) = Inr (1, db1) \<and>
      Add db1 (note_with ''b/note'' []) = Inr (2, db2) \<and>
      map_sum id (map n_path) (Find sample_env db2 (linked_by ''a'' False 0)) = Inr [''b/note''])"
proof (intro conjI impI)
  assume a: "Add db m = Inr (i, db') \<and> j < length (db_links db) \<and>
    l_target_id (db_links db ! j) = None \<and> \<not> l_external (db_links db ! j) \<and>
    prefix (l_href (db_links db ! j)) (Path m)"
  then have i: "i = LastInsertId db"
    and l: "db_links db' = map (healed i (Path m))
       (db_links db @ map (\<lambda>k. link_row_of i
          (resolved (db\<lparr>db_notes := db_notes db @ [added_row db m]\<rparr>) (Href k)) k) (Links m))"
    by (auto simp: Add_eq split: if_splits)
  from a have "db_links db' ! j = healed i (Path m) (db_links db ! j)"
    by (simp add: l nth_append)
  with a show "db_links db' ! j = (db_links db ! j)\<lparr>l_target_id := Some i\<rparr>"
    by (simp add: healed_def like_prefix)
next
  from add_a add_b forward_linked_by
  show "\<exists>db1 db2.
      Add empty_db (note_with ''a'' [''b/note'']) = Inr (1, db1) \<and>
      Add db1 (note_with ''b/note'' []) = Inr (2, db2) \<and>
      map_sum id (map n_path) (Find sample_env db2 (linked_by ''a'' False 0)) = Inr [''b/note'']"
    by blast
qed

lemma forward_db1_link:
  "0 < length (db_links forward_db1) \<and> l_target_id (db_links forward_db1 ! 0) = None \<and>
   \<not> l_external (db_links forward_db1 ! 0) \<and>
   prefix (l_href (db_links forward_db1 ! 0)) (Path (note_with ''b/note'' []))"
  by (simp add: forward_db1_def link_at_def note_with_def)

theorem add_heals_forward_links_witness:
  "Add forward_db1 (note_with ''b/note'' []) = Inr (2, forward_db2) \<and>
   0 < length (db_links forward_db1) \<and> l_target_id (db_links forward_db1 ! 0) = None \<and>
   \<not> l_external (db_links forward_db1 ! 0) \<and>
   prefix (l_href (db_links forward_db1 ! 0)) (Path (note_with ''b/note'' [])) \<and>
   db_links forward_db2 ! 0 = (db_links forward_db1 ! 0)\<lparr>l_target_id := Some 2\<rparr>"
  using add_heals_forward_links [of forward_db1 "note_with ''b/note'' []" 2 forward_db2 0]
    add_b forward_db1_link by blast

text \<open>
  C3 as stated fails: in the same scenario the filter \<^verbatim>\<open>LinkTo\<close> on \<open>a\<close> selects the
  notes that link to \<open>a\<close> and returns nothing.
\<close>

theorem link_to_misses_healed_target:
  "Add empty_db (note_with ''a'' [''b/note'']) = Inr (1, forward_db1) \<and>
   Add forward_db1 (note_with ''b/note'' []) = Inr (2, forward_db2) \<and>
   Find sample_env forward_db2 (link_to ''a'' False 0) = Inr []"
  using add_a add_b forward_link_to by simp

lemma extends_refl [simp]: "extends b b"
  by (simp add: extends_def)

lemma extends_trans: "extends a b \<Longrightarrow> extends b c \<Longrightarrow> extends a c"
  by (auto simp: extends_def)

subsection \<open>The filter compiler\<close>

lemma tag_exprs_Cons:
  "tag_exprs (t # ts) =
     (if length (snd (tag_group t)) = 0 then []
      else [TagGlobs (fst (tag_group t)) (snd (tag_group t))]) @ tag_exprs ts"
  by (simp add: tag_exprs_def)

lemma tags_loop_eq:
  "tags_loop b ts =
     (case filter offending ts of
        [] \<Rightarrow> Inr (b\<lparr>whereExprs := whereExprs b @ tag_exprs ts\<rparr>)
      | g # gs \<Rightarrow> Inl (InvalidQuery g))"
proof (induction ts arbitrary: b)
  case Nil
  show ?case by (simp add: tag_exprs_def)
next
  case (Cons t ts)
  have o: "offending t \<longleftrightarrow> fst (tag_group t) \<and> length (snd (tag_group t)) > 1"
    by (simp add: offending_def)
  show ?case
  proof (cases "tag_group t")
    case (Pair negate globs)
    show ?thesis
    proof (cases "length globs = 0")
      case True
      with Pair show ?thesis by (simp add: o Cons.IH tag_exprs_Cons split: list.splits)
    next
      case False
      show ?thesis
      proof (cases "negate \<and> length globs > 1")
        case True
        with Pair False show ?thesis by (simp add: o)
      next
        case n: False
        with Pair False have "\<not> offending t" by (simp add: o)
        with Pair False n show ?thesis by (auto simp: Cons.IH tag_exprs_Cons split: list.splits)
      qed
    qed
  qed
qed

lemma setupLinkFilter_extends:
  "setupLinkFilter db b paths d neg recursive = Inr b' \<Longrightarrow> extends b b'"
  by (auto simp: setupLinkFilter_def Let_def extends_def split: sum.splits if_splits)

lemma linkedBy_step_extends: "linkedBy_step db opts b = Inr b' \<Longrightarrow> extends b b'"
  by (auto simp: linkedBy_step_def split: option.splits dest!: setupLinkFilter_extends)
     (auto simp: extends_def)

lemma linkTo_step_extends: "linkTo_step db opts b = Inr b' \<Longrightarrow> extends b b'"
  by (auto simp: linkTo_step_def split: option.splits dest!: setupLinkFilter_extends)
     (auto simp: extends_def)

lemma related_step_extends: "related_step db opts b = Inr b' \<Longrightarrow> extends b b'"
  by (auto simp: related_step_def split: option.splits sum.splits dest!: setupLinkFilter_extends)
     (auto simp: extends_def)

lemma filters_after_links_extends: "extends b (filters_after_links opts b)"
  by (auto simp: filters_after_links_def Let_def extends_def split: option.splits)

lemma filters_extends:
  assumes "filters env db opts = Inr b"
  shows "\<exists>b1. tags_loop (filters_before_tags env opts) (case Tags opts of None \<Rightarrow> [] | Some ts \<Rightarrow> ts) = Inr b1
              \<and> extends b1 b"
proof -
  from assms obtain b1 b2 b3 b4 where
    t: "tags_loop (filters_before_tags env opts) (case Tags opts of None \<Rightarrow> [] | Some ts \<Rightarrow> ts) = Inr b1"
    and s1: "linkedBy_step db opts b1 = Inr b2"
    and s2: "linkTo_step db opts b2 = Inr b3"
    and s3: "related_step db opts b3 = Inr b4"
    and s4: "b = filters_after_links opts b4"
    by (auto simp: filters_def split: sum.splits)
  have "extends b1 b"
    using linkedBy_step_extends [OF s1] linkTo_step_extends [OF s2] related_step_extends [OF s3]
      filters_after_links_extends [of b4 opts] s4
    by (blast intro: extends_trans)
  with t show ?thesis by blast
qed

lemma before_tags_order:
  "additionalOrderTerms (filters_before_tags env opts) =
     (if Match opts = None then [] else [''bm25(notes_fts, 1000.0, 500.0, 1.0)''])"
  by (simp add: filters_before_tags_def builder_init_def Let_def split: option.splits)

lemma filters_order:
  assumes "filters env db opts = Inr b"
  shows "additionalOrderTerms b =
     (if Match opts = None then [] else [''bm25(notes_fts, 1000.0, 500.0, 1.0)''])"
proof -
  from filters_extends [OF assms] obtain b1 where
    t: "tags_loop (filters_before_tags env opts) (case Tags opts of None \<Rightarrow> [] | Some ts \<Rightarrow> ts) = Inr b1"
    and e: "extends b1 b" by blast
  from t have "additionalOrderTerms b1 = additionalOrderTerms (filters_before_tags env opts)"
    by (auto simp: tags_loop_eq split: list.splits)
  with e show ?thesis by (simp add: extends_def before_tags_order)
qed

lemma orderTerm_not_relevance:
  "orderTerm s = Inr t \<Longrightarrow> t \<noteq> ''bm25(notes_fts, 1000.0, 500.0, 1.0)''"
  by (auto simp: orderTerm_def Let_def split: SortField.splits if_splits)

lemma orderTerms_loop_not_relevance:
  "orderTerms_loop ss = Inr ts \<Longrightarrow>
   ''bm25(notes_fts, 1000.0, 500.0, 1.0)'' \<notin> set ts \<and> length ts = length ss"
proof (induction ss arbitrary: ts)
  case Nil
  then show ?case by simp
next
  case (Cons s ss)
  then show ?case
    by (auto split: sum.splits dest: orderTerm_not_relevance)
qed

text \<open>
  C1 (as amended). The \<^verbatim>\<open>ORDER BY\<close> terms of the statement are, in this order:
  \<^verbatim>\<open>l.distance\<close> when the statement has the recursive closure, the terms of the user's
  sorters, the relevance score \<^verbatim>\<open>bm25(...)\<close> when a match expression is present, and
  \<^verbatim>\<open>n.title ASC\<close>, which is always the last term. Without match expression no term is
  the relevance score.
\<close>

theorem order_terms_of_query:
  assumes "findRows_query env db opts = Inr q"
  shows "\<exists>ts. orderTerms_loop (Sorters opts) = Inr ts \<and> length ts = length (Sorters opts) \<and>
     q_orderTerms q =
       (if q_closure q = None then [] else [''l.distance'']) @ ts @
       (if Match opts = None then [] else [''bm25(notes_fts, 1000.0, 500.0, 1.0)'']) @
       [''n.title ASC''] \<and>
     last (q_orderTerms q) = ''n.title ASC'' \<and>
     (Match opts = None \<longrightarrow> ''bm25(notes_fts, 1000.0, 500.0, 1.0)'' \<notin> set (q_orderTerms q))"
proof -
  from assms obtain b where f: "filters env db opts = Inr b"
    by (cases "filters env db opts") (simp_all add: findRows_query_def)
  from assms f obtain ts where o: "orderTerms_loop (Sorters opts) = Inr ts"
    by (cases "orderTerms_loop (Sorters opts)") (simp_all add: findRows_query_def)
  from assms f o have q: "q_orderTerms q =
       (if transitiveClosure b then [''l.distance''] else []) @ ts @ additionalOrderTerms b @ [''n.title ASC'']"
    and c: "q_closure q = (if transitiveClosure b then Some (maxDistance b) else None)"
    by (auto simp: findRows_query_def Let_def)
  note a = filters_order [OF f]
  note n = orderTerms_loop_not_relevance [OF o]
  have 1: "q_orderTerms q =
       (if q_closure q = None then [] else [''l.distance'']) @ ts @
       (if Match opts = None then [] else [''bm25(notes_fts, 1000.0, 500.0, 1.0)'']) @
       [''n.title ASC'']"
    by (simp add: q c a)
  have 2: "last (q_orderTerms q) = ''n.title ASC''"
    by (simp add: 1)
  have 3: "Match opts = None \<longrightarrow> ''bm25(notes_fts, 1000.0, 500.0, 1.0)'' \<notin> set (q_orderTerms q)"
    using n by (simp add: 1)
  from n have len: "length ts = length (Sorters opts)" by simp
  show ?thesis
    by (rule exI [of _ ts]) (intro conjI o len 1 2 3)
qed

lemma matched_sorted_query:
  "\<exists>q. findRows_query sample_env chain_db (no_filter\<lparr>Match := Some ''x'', Sorters := [by_created]\<rparr>) = Inr q \<and>
     q_orderTerms q = [''n.created ASC'', ''bm25(notes_fts, 1000.0, 500.0, 1.0)'', ''n.title ASC'']"
  by (simp add: findRows_query_def filters_def filters_before_tags_def builder_init_def
      linkedBy_step_def linkTo_step_def related_step_def filters_after_links_def Let_def
      no_filter_def by_created_def orderTerm_def sample_env_def)

theorem order_terms_of_query_witness:
  "\<exists>q. findRows_query sample_env chain_db (no_filter\<lparr>Match := Some ''x'', Sorters := [by_created]\<rparr>) = Inr q \<and>
     last (q_orderTerms q) = ''n.title ASC'' \<and>
     length (q_orderTerms q) = 3"
proof -
  from matched_sorted_query obtain q where
    q: "findRows_query sample_env chain_db (no_filter\<lparr>Match := Some ''x'', Sorters := [by_created]\<rparr>) = Inr q"
    and t: "q_orderTerms q = [''n.created ASC'', ''bm25(notes_fts, 1000.0, 500.0, 1.0)'', ''n.title ASC'']"
    by blast
  from order_terms_of_query [OF q] have l: "last (q_orderTerms q) = ''n.title ASC''" by blast
  from t have n: "length (q_orderTerms q) = 3" by simp
  show ?thesis
    by (rule exI [of _ q]) (intro conjI q l n)
qed

text \<open>
  C1 as stated fails: with a match expression and a sorter by creation time the relevance
  score is the second term, after the sorter's; the first term of an \<^verbatim>\<open>ORDER BY\<close> has
  the highest priority.
\<close>

theorem relevance_follows_sorters:
  "\<exists>q. findRows_query sample_env chain_db (no_filter\<lparr>Match := Some ''x'', Sorters := [by_created]\<rparr>) = Inr q \<and>
     q_orderTerms q = [''n.created ASC'', ''bm25(notes_fts, 1000.0, 500.0, 1.0)'', ''n.title ASC''] \<and>
     hd (q_orderTerms q) \<noteq> ''bm25(notes_fts, 1000.0, 500.0, 1.0)''"
proof -
  from matched_sorted_query obtain q where
    q: "findRows_query sample_env chain_db (no_filter\<lparr>Match := Some ''x'', Sorters := [by_created]\<rparr>) = Inr q"
    and t: "q_orderTerms q = [''n.created ASC'', ''bm25(notes_fts, 1000.0, 500.0, 1.0)'', ''n.title ASC'']"
    by blast
  from t have h: "hd (q_orderTerms q) \<noteq> ''bm25(notes_fts, 1000.0, 500.0, 1.0)''" by simp
  show ?thesis
    by (rule exI [of _ q]) (intro conjI q t h)
qed

subsection \<open>What a returned row satisfies\<close>

















subsection \<open>Mention expansion, continued\<close>




lemma length_appendTitle [simp]: "length (appendTitle ts t) = Suc (length ts)"
  by (simp add: appendTitle_def)

lemma length_foldl_appendTitle [simp]:
  "length (foldl appendTitle ts xs) = length ts + length xs"
  by (induction xs arbitrary: ts) auto













subsection \<open>Paths that resolve to no note\<close>

lemma setupLinkFilter_unresolved:
  "findIdsByPathPrefixes db paths = Inr [] \<Longrightarrow> setupLinkFilter db b paths d neg recursive = Inr b"
  by (simp add: setupLinkFilter_def)

lemma before_tags_closure [simp]: "\<not> transitiveClosure (filters_before_tags env opts)"
  by (simp add: filters_before_tags_def builder_init_def Let_def split: option.splits)

lemma tags_loop_closure:
  "tags_loop b ts = Inr b' \<Longrightarrow> transitiveClosure b' = transitiveClosure b"
  by (auto simp: tags_loop_eq split: list.splits)

lemma after_links_maxDistance:
  "filters_after_links opts (b\<lparr>maxDistance := m\<rparr>) = (filters_after_links opts b)\<lparr>maxDistance := m\<rparr>"
  by (simp add: filters_after_links_def Let_def split: option.splits)

lemma after_links_closure [simp]:
  "transitiveClosure (filters_after_links opts b) = transitiveClosure b"
  by (simp add: filters_after_links_def Let_def split: option.splits)

lemma before_tags_LinkedBy [simp]:
  "filters_before_tags env (opts\<lparr>LinkedBy := x\<rparr>) = filters_before_tags env opts"
  by (simp add: filters_before_tags_def)

lemma before_tags_LinkTo [simp]:
  "filters_before_tags env (opts\<lparr>LinkTo := x\<rparr>) = filters_before_tags env opts"
  by (simp add: filters_before_tags_def)

lemma after_links_LinkedBy [simp]:
  "filters_after_links (opts\<lparr>LinkedBy := x\<rparr>) b = filters_after_links opts b"
  by (simp add: filters_after_links_def)

lemma after_links_LinkTo [simp]:
  "filters_after_links (opts\<lparr>LinkTo := x\<rparr>) b = filters_after_links opts b"
  by (simp add: filters_after_links_def)

lemma linkTo_step_LinkedBy [simp]:
  "linkTo_step db (opts\<lparr>LinkedBy := x\<rparr>) b = linkTo_step db opts b"
  by (simp add: linkTo_step_def)

lemma related_step_LinkedBy [simp]:
  "related_step db (opts\<lparr>LinkedBy := x\<rparr>) b = related_step db opts b"
  by (simp add: related_step_def)

lemma related_step_LinkTo [simp]:
  "related_step db (opts\<lparr>LinkTo := x\<rparr>) b = related_step db opts b"
  by (simp add: related_step_def)

lemma linkedBy_step_LinkTo [simp]:
  "linkedBy_step db (opts\<lparr>LinkTo := x\<rparr>) b = linkedBy_step db opts b"
  by (simp add: linkedBy_step_def)

lemma findRows_query_statement:
  "findRows_query env db opts =
     (case filters env db opts of Inl err \<Rightarrow> Inl err | Inr b \<Rightarrow> statement_of opts b)"
  by (simp add: findRows_query_def statement_of_def Let_def split: sum.splits)

lemma statement_of_maxDistance:
  "\<not> transitiveClosure b \<Longrightarrow> statement_of opts (b\<lparr>maxDistance := m\<rparr>) = statement_of opts b"
  by (simp add: statement_of_def Let_def split: sum.splits)

lemma statement_of_LinkedBy [simp]: "statement_of (opts\<lparr>LinkedBy := x\<rparr>) b = statement_of opts b"
  by (simp add: statement_of_def Let_def split: sum.splits)

lemma statement_of_LinkTo [simp]: "statement_of (opts\<lparr>LinkTo := x\<rparr>) b = statement_of opts b"
  by (simp add: statement_of_def Let_def split: sum.splits)

lemma findRows_query_steps:
  "findRows_query env db opts =
     (case tags_loop (filters_before_tags env opts) (case Tags opts of None \<Rightarrow> [] | Some ts \<Rightarrow> ts) of
        Inl err \<Rightarrow> Inl err
      | Inr b1 \<Rightarrow>
          (case linkedBy_step db opts b1 of
             Inl err \<Rightarrow> Inl err
           | Inr b2 \<Rightarrow>
               (case linkTo_step db opts b2 of
                  Inl err \<Rightarrow> Inl err
                | Inr b3 \<Rightarrow> rest_of db opts b3)))"
  by (simp add: findRows_query_statement filters_def rest_of_def split: sum.splits)

lemma rest_of_maxDistance:
  assumes "\<not> transitiveClosure b"
  shows "rest_of db opts (b\<lparr>maxDistance := m\<rparr>) = rest_of db opts b"
proof (cases "Related opts")
  case None
  with assms show ?thesis
    by (simp add: rest_of_def related_step_def after_links_maxDistance statement_of_maxDistance)
next
  case (Some paths)
  then show ?thesis by (simp add: rest_of_def related_step_def)
qed

lemma rest_of_LinkedBy [simp]: "rest_of db (opts\<lparr>LinkedBy := x\<rparr>) b = rest_of db opts b"
  by (simp add: rest_of_def cong: sum.case_cong)

lemma rest_of_LinkTo [simp]: "rest_of db (opts\<lparr>LinkTo := x\<rparr>) b = rest_of db opts b"
  by (simp add: rest_of_def cong: sum.case_cong)

lemma linkedBy_unresolved:
  assumes "LinkedBy opts = Some f" and "findIdsByPathPrefixes db (Paths f) = Inr []"
  shows "findRows_query env db opts = findRows_query env db (opts\<lparr>LinkedBy := None\<rparr>)"
proof (cases "tags_loop (filters_before_tags env opts) (case Tags opts of None \<Rightarrow> [] | Some ts \<Rightarrow> ts)")
  case (Inl err)
  then show ?thesis by (simp add: findRows_query_steps)
next
  case (Inr b1)
  from tags_loop_closure [OF Inr] have c: "\<not> transitiveClosure b1" by simp
  have l: "linkedBy_step db opts b1 = Inr (b1\<lparr>maxDistance := MaxDistance f\<rparr>)"
    using assms by (simp add: linkedBy_step_def setupLinkFilter_unresolved)
  have n: "linkedBy_step db (opts\<lparr>LinkedBy := None\<rparr>) b1 = Inr b1"
    by (simp add: linkedBy_step_def)
  have t: "(case linkTo_step db opts (b1\<lparr>maxDistance := MaxDistance f\<rparr>) of
              Inl err \<Rightarrow> Inl err | Inr b3 \<Rightarrow> rest_of db opts b3) =
           (case linkTo_step db opts b1 of
              Inl err \<Rightarrow> Inl err | Inr b3 \<Rightarrow> rest_of db opts b3)"
  proof (cases "LinkTo opts")
    case None
    then show ?thesis by (simp add: linkTo_step_def rest_of_maxDistance [OF c])
  next
    case (Some g)
    then show ?thesis by (simp add: linkTo_step_def)
  qed
  from Inr l n t show ?thesis by (simp add: findRows_query_steps cong: sum.case_cong)
qed

lemma linkTo_unresolved:
  assumes "LinkTo opts = Some f" and "LinkedBy opts = None"
    and "findIdsByPathPrefixes db (Paths f) = Inr []"
  shows "findRows_query env db opts = findRows_query env db (opts\<lparr>LinkTo := None\<rparr>)"
proof (cases "tags_loop (filters_before_tags env opts) (case Tags opts of None \<Rightarrow> [] | Some ts \<Rightarrow> ts)")
  case (Inl err)
  then show ?thesis by (simp add: findRows_query_steps)
next
  case (Inr b1)
  from tags_loop_closure [OF Inr] have c: "\<not> transitiveClosure b1" by simp
  have l: "linkedBy_step db opts b1 = Inr b1"
    using assms by (simp add: linkedBy_step_def)
  have t: "linkTo_step db opts b1 = Inr (b1\<lparr>maxDistance := MaxDistance f\<rparr>)"
    using assms by (simp add: linkTo_step_def setupLinkFilter_unresolved)
  have n: "linkTo_step db (opts\<lparr>LinkTo := None\<rparr>) b1 = Inr b1"
    by (simp add: linkTo_step_def)
  from Inr l t n rest_of_maxDistance [OF c, where db = db and opts = opts and m = "MaxDistance f"]
  show ?thesis by (simp add: findRows_query_steps cong: sum.case_cong)
qed

lemma findRows_no_filter:
  "\<not> db_failing db \<Longrightarrow>
   findRows env db no_filter = Inr (sort_key (order_key env [''n.title ASC'']) (db_notes db))"
  by (simp add: findRows_def findRows_query_def filters_def filters_before_tags_def
      builder_init_def linkedBy_step_def linkTo_step_def related_step_def
      filters_after_links_def Let_def no_filter_def tx_Query_def sql_rejects_def has_having_def)

lemma related_unresolved:
  "\<not> db_failing db \<Longrightarrow> findIdsByPathPrefixes db paths = Inr [] \<Longrightarrow>
   findRows env db (no_filter\<lparr>Related := Some paths\<rparr>) = Inl (SqlError ''no such column: l.distance'')"
  by (simp add: findRows_def findRows_query_def filters_def filters_before_tags_def
      builder_init_def linkedBy_step_def linkTo_step_def related_step_def
      setupLinkFilter_unresolved
      filters_after_links_def Let_def no_filter_def tx_Query_def sql_rejects_def has_having_def)

text \<open>
  C8. When no path of the mention list resolves, \<^verbatim>\<open>Find\<close> fails with
  \<open>MentionNotFound\<close>. When the paths of a link filter resolve to no id,
  \<^verbatim>\<open>setupLinkFilter\<close> returns without error and leaves the statement under construction
  as it was; the rows found with such a \<^verbatim>\<open>LinkedBy\<close> filter, or with such a
  \<^verbatim>\<open>LinkTo\<close> filter and no \<^verbatim>\<open>LinkedBy\<close>, are those found without it. For
  \<^verbatim>\<open>Related\<close> the code goes on to append its \<^verbatim>\<open>HAVING\<close> to a statement that has
  neither the join nor the \<^verbatim>\<open>GROUP BY\<close>: where the options without the filter return
  every note, the options with it return the error of the database.
\<close>

theorem unresolved_paths:
  "(Mention opts = Some mention \<and> findIdsByPathPrefixes db mention = Inr []
      \<longrightarrow> Find env db opts = Inl (MentionNotFound mention)) \<and>
   (findIdsByPathPrefixes db paths = Inr []
      \<longrightarrow> setupLinkFilter db b paths d neg recursive = Inr b) \<and>
   (LinkedBy opts = Some f \<and> findIdsByPathPrefixes db (Paths f) = Inr []
      \<longrightarrow> findRows env db opts = findRows env db (opts\<lparr>LinkedBy := None\<rparr>)) \<and>
   (LinkTo opts = Some f \<and> LinkedBy opts = None \<and> findIdsByPathPrefixes db (Paths f) = Inr []
      \<longrightarrow> findRows env db opts = findRows env db (opts\<lparr>LinkTo := None\<rparr>)) \<and>
   (\<not> db_failing db \<and> findIdsByPathPrefixes db paths = Inr []
      \<longrightarrow> findRows env db (no_filter\<lparr>Related := Some paths\<rparr>) =
            Inl (SqlError ''no such column: l.distance'') \<and>
          findRows env db no_filter = Inr (sort_key (order_key env [''n.title ASC'']) (db_notes db)))"
proof (intro conjI impI)
  assume "Mention opts = Some mention \<and> findIdsByPathPrefixes db mention = Inr []"
  then show "Find env db opts = Inl (MentionNotFound mention)"
    by (simp add: Find_def expandMentionsIntoMatch_def)
next
  assume "findIdsByPathPrefixes db paths = Inr []"
  then show "setupLinkFilter db b paths d neg recursive = Inr b"
    by (rule setupLinkFilter_unresolved)
next
  assume "LinkedBy opts = Some f \<and> findIdsByPathPrefixes db (Paths f) = Inr []"
  then have "findRows_query env db opts = findRows_query env db (opts\<lparr>LinkedBy := None\<rparr>)"
    by (intro linkedBy_unresolved [of opts f]) simp_all
  then show "findRows env db opts = findRows env db (opts\<lparr>LinkedBy := None\<rparr>)"
    by (simp add: findRows_def)
next
  assume "LinkTo opts = Some f \<and> LinkedBy opts = None \<and> findIdsByPathPrefixes db (Paths f) = Inr []"
  then have "findRows_query env db opts = findRows_query env db (opts\<lparr>LinkTo := None\<rparr>)"
    by (intro linkTo_unresolved [of opts f]) simp_all
  then show "findRows env db opts = findRows env db (opts\<lparr>LinkTo := None\<rparr>)"
    by (simp add: findRows_def)
next
  assume a: "\<not> db_failing db \<and> findIdsByPathPrefixes db paths = Inr []"
  then show "findRows env db (no_filter\<lparr>Related := Some paths\<rparr>) =
            Inl (SqlError ''no such column: l.distance'')"
    by (simp add: related_unresolved)
  from a show "findRows env db no_filter = Inr (sort_key (order_key env [''n.title ASC'']) (db_notes db))"
    by (simp add: findRows_no_filter)
qed

lemma chain_zz_unresolved:
  "\<not> db_failing chain_db \<and> findIdsByPathPrefixes chain_db [''zz''] = Inr []"
  by (simp add: chain_db_def sample_defs lookup_defs)

theorem unresolved_paths_witness:
  "\<not> db_failing chain_db \<and> findIdsByPathPrefixes chain_db [''zz''] = Inr [] \<and>
   Find sample_env chain_db (no_filter\<lparr>Mention := Some [''zz'']\<rparr>) = Inl (MentionNotFound [''zz'']) \<and>
   findRows sample_env chain_db (linked_by ''zz'' True 2) = findRows sample_env chain_db no_filter \<and>
   findRows sample_env chain_db (no_filter\<lparr>Related := Some [''zz'']\<rparr>) =
     Inl (SqlError ''no such column: l.distance'') \<and>
   findRows sample_env chain_db no_filter = Inr (db_notes chain_db)"
proof -
  from chain_zz_unresolved have h1: "\<not> db_failing chain_db"
    and h2: "findIdsByPathPrefixes chain_db [''zz''] = Inr []" by simp_all
  have m: "Mention (no_filter\<lparr>Mention := Some [''zz'']\<rparr>) = Some [''zz'']" by simp
  from unresolved_paths [where opts = "no_filter\<lparr>Mention := Some [''zz'']\<rparr>" and mention = "[''zz'']"
      and db = chain_db and env = sample_env] m h2
  have a: "Find sample_env chain_db (no_filter\<lparr>Mention := Some [''zz'']\<rparr>) = Inl (MentionNotFound [''zz''])"
    by simp
  have l: "LinkedBy (linked_by ''zz'' True 2) =
      Some \<lparr>Paths = [''zz''], Negate = False, Recursive = True, MaxDistance = 2\<rparr>"
    and l': "(linked_by ''zz'' True 2)\<lparr>LinkedBy := None\<rparr> = no_filter"
    by (simp_all add: linked_by_def no_filter_def)
  from unresolved_paths [where opts = "linked_by ''zz'' True 2" and db = chain_db and env = sample_env
      and f = "\<lparr>Paths = [''zz''], Negate = False, Recursive = True, MaxDistance = 2\<rparr>"] l h2
  have b: "findRows sample_env chain_db (linked_by ''zz'' True 2) = findRows sample_env chain_db no_filter"
    by (simp add: l')
  from unresolved_paths [where db = chain_db and paths = "[''zz'']" and env = sample_env] h1 h2
  have c: "findRows sample_env chain_db (no_filter\<lparr>Related := Some [''zz'']\<rparr>) =
     Inl (SqlError ''no such column: l.distance'')"
    and d': "findRows sample_env chain_db no_filter =
      Inr (sort_key (order_key sample_env [''n.title ASC'']) (db_notes chain_db))"
    by simp_all
  from d' have d: "findRows sample_env chain_db no_filter = Inr (db_notes chain_db)"
    by (simp add: sample_env_def chain_db_def)
  show ?thesis by (intro conjI h1 h2 a b c d)
qed

subsection \<open>The recursive closure\<close>

lemma link_chain_pair [simp]: "link_chain ls [s, t] = link_edge ls s t"
  by (simp add: link_chain_def)

lemma link_chain_short [simp]: "\<not> link_chain ls []" "\<not> link_chain ls [s]"
  by (simp_all add: link_chain_def)



lemma tc_loop_Nil [simp]: "tc_loop n ls maxd [] table = table"
  by (cases n) simp_all

lemma tc_loop_Cons:
  "0 < n \<Longrightarrow> tc_loop n ls maxd (r # queue) table =
     tc_loop (n - 1) ls maxd (queue @ tc_recursive ls maxd r) (table @ [r])"
  by (cases n) simp_all







lemma row_of_path:
  "chain_row ls maxd r \<Longrightarrow>
   r = \<lparr>tc_source_id = hd (tc_path r), tc_target_id = Some (last (tc_path r)),
        tc_distance = int (length (tc_path r)) - 1, tc_path = tc_path r\<rparr>"
  by (simp add: chain_row_def)









lemma cocitation_closure_2:
  "map (\<lambda>r. (tc_source_id r, tc_target_id r, tc_distance r)) (transitive_closure (db_links cocitation_db) 2) =
     [(1, Some 2, 1), (3, Some 2, 1)]"
  by (simp add: transitive_closure_def tc_loop_Cons tc_initial_def tc_recursive_def cocitation_db_def
      link_at_def)

lemma links_note_minus [simp]:
  "links_note (- 1) ids i (s, t) = (t = Some i \<and> s \<in> set ids)"
  by (cases t) (auto simp: links_note_def)

lemma links_note_plus [simp]:
  "links_note 1 ids i (s, t) = (s = i \<and> (\<exists>u \<in> set ids. t = Some u))"
  by (cases t) (auto simp: links_note_def)

lemma links_note_zero [simp]:
  "links_note 0 ids i (s, t) =
     ((t = Some i \<and> s \<in> set ids) \<or> (s = i \<and> (\<exists>u \<in> set ids. t = Some u)))"
  by (cases t) (auto simp: links_note_def)













subsection \<open>The Related filter\<close>










lemma after_links_maxd [simp]: "maxDistance (filters_after_links opts b) = maxDistance b"
  by (simp add: filters_after_links_def Let_def split: option.splits)









lemma cocitation_closure_2_length: "length (transitive_closure (db_links cocitation_db) 2) < 100000"
proof -
  have "length (transitive_closure (db_links cocitation_db) 2) =
      length (map (\<lambda>r. (tc_source_id r, tc_target_id r, tc_distance r))
                (transitive_closure (db_links cocitation_db) 2))"
    by simp
  also have "\<dots> = 2" unfolding cocitation_closure_2 by simp
  finally show ?thesis by simp
qed



end
